theory Spec2Isabelle
  imports Complex_Main "HOL-Library.Multiset" "HOL-Library.Sublist"
begin

section \<open>Multi-agent tourism system: geocoding, weather, places, orchestrator\<close>

text \<open>
  A shallow embedding of \<^verbatim>\<open>app.py\<close>. A Python float is the real number it denotes
  (infinities and NaN are not modelled); what the machine computes with floats is given
  by an arithmetic, a field of the environment, so that rounding is a parameter and not
  assumed away. The three HTTP providers and the two Python library parsers the code
  calls are fields of the environment too; every agent returns its result together with
  the list of provider requests it made.
\<close>

subsection \<open>Utilities\<close>

datatype exn = RequestException | KeyError | TypeError | ValueError | IndexError

text \<open>
  The formula of \<^verbatim>\<open>haversine\<close> in exact arithmetic: \<open>haversine\<close> is what the source
  function denotes when no operation rounds.
\<close>

definition radians :: "real \<Rightarrow> real" where
  \<comment> \<open>\<^verbatim>\<open>math.radians\<close>\<close>
  "radians x = x * (pi / 180)"

definition haversine_a :: "real \<Rightarrow> real \<Rightarrow> real \<Rightarrow> real \<Rightarrow> real" where
  \<comment> \<open>the local \<^verbatim>\<open>a\<close> of \<^verbatim>\<open>haversine\<close>\<close>
  "haversine_a lat1 lon1 lat2 lon2 =
     (let phi1 = radians lat1;
          phi2 = radians lat2;
          dphi = radians (lat2 - lat1);
          dlambda = radians (lon2 - lon1)
      in (sin (dphi / 2))\<^sup>2 + cos phi1 * cos phi2 * (sin (dlambda / 2))\<^sup>2)"

definition haversine :: "real \<Rightarrow> real \<Rightarrow> real \<Rightarrow> real \<Rightarrow> real" where
  \<comment> \<open>distance in km\<close>
  "haversine lat1 lon1 lat2 lon2 =
     (let R = 6371;
          a = haversine_a lat1 lon1 lat2 lon2
      in 2 * R * arcsin (sqrt a))"

text \<open>
  The function as the machine runs it. An arithmetic gives the rounded operations the
  source uses: \<^verbatim>\<open>+\<close>, \<^verbatim>\<open>-\<close>, \<^verbatim>\<open>*\<close>, \<^verbatim>\<open>/\<close>, \<^verbatim>\<open>x**2\<close> and the functions of the
  \<^verbatim>\<open>math\<close> module, of which \<^verbatim>\<open>math.sqrt\<close> and \<^verbatim>\<open>math.asin\<close> raise \<^verbatim>\<open>ValueError\<close>
  outside their domain (\<open>None\<close>). \<open>haversine_m\<close> follows the source line by line and
  raises where they do; \<open>exact_arith\<close> is the arithmetic that does not round.
\<close>

record arith =
  f_add :: "real \<Rightarrow> real \<Rightarrow> real"
  f_sub :: "real \<Rightarrow> real \<Rightarrow> real"
  f_mul :: "real \<Rightarrow> real \<Rightarrow> real"
  f_div :: "real \<Rightarrow> real \<Rightarrow> real"
  f_sq :: "real \<Rightarrow> real"
  m_radians :: "real \<Rightarrow> real"
  m_sin :: "real \<Rightarrow> real"
  m_cos :: "real \<Rightarrow> real"
  m_sqrt :: "real \<Rightarrow> real option"
  m_asin :: "real \<Rightarrow> real option"

definition haversine_m :: "arith \<Rightarrow> real \<Rightarrow> real \<Rightarrow> real \<Rightarrow> real \<Rightarrow> exn + real" where
  "haversine_m ar lat1 lon1 lat2 lon2 =
     (let R = 6371;
          phi1 = m_radians ar lat1;
          phi2 = m_radians ar lat2;
          dphi = m_radians ar (f_sub ar lat2 lat1);
          dlambda = m_radians ar (f_sub ar lon2 lon1);
          a = f_add ar (f_sq ar (m_sin ar (f_div ar dphi 2)))
                (f_mul ar (f_mul ar (m_cos ar phi1) (m_cos ar phi2))
                   (f_sq ar (m_sin ar (f_div ar dlambda 2))))
      in case m_sqrt ar a of
           None \<Rightarrow> Inl ValueError
         | Some r \<Rightarrow>
             (case m_asin ar r of
                None \<Rightarrow> Inl ValueError
              | Some s \<Rightarrow> Inr (f_mul ar (f_mul ar 2 R) s)))"

definition exact_arith :: arith where
  "exact_arith =
     \<lparr>f_add = (+), f_sub = (-), f_mul = (*), f_div = (/), f_sq = (\<lambda>x. x\<^sup>2),
      m_radians = radians, m_sin = sin, m_cos = cos,
      m_sqrt = (\<lambda>x. if 0 \<le> x then Some (sqrt x) else None),
      m_asin = (\<lambda>x. if - 1 \<le> x \<and> x \<le> 1 then Some (arcsin x) else None)\<rparr>"

definition zero_exact :: "arith \<Rightarrow> bool" where
  \<comment> \<open>the operations are exact at zero, as those of IEEE doubles are on finite values\<close>
  "zero_exact ar =
     ((\<forall>x. f_sub ar x x = 0) \<and> m_radians ar 0 = 0 \<and> f_div ar 0 2 = 0 \<and> m_sin ar 0 = 0
      \<and> f_sq ar 0 = 0 \<and> (\<forall>x. f_mul ar x 0 = 0) \<and> f_add ar 0 0 = 0
      \<and> m_sqrt ar 0 = Some 0 \<and> m_asin ar 0 = Some 0)"

subsection \<open>Provider data and Python values\<close>

text \<open>
  Scalar JSON values as Python sees them; \<open>JNull\<close> is \<^verbatim>\<open>None\<close>. A JSON object is an
  association list; \<open>dict_get\<close> is \<^verbatim>\<open>d.get(k)\<close> (\<^verbatim>\<open>None\<close> for a missing key) and
  \<open>dict_item\<close> is \<^verbatim>\<open>d[k]\<close> (\<^verbatim>\<open>KeyError\<close> for a missing key).
\<close>

datatype jv = JNull | JNum real | JStr string

type_synonym jobject = "(string \<times> jv) list"

definition dict_get :: "jobject \<Rightarrow> string \<Rightarrow> jv" where
  "dict_get d k = (case map_of d k of None \<Rightarrow> JNull | Some v \<Rightarrow> v)"

definition dict_item :: "jobject \<Rightarrow> string \<Rightarrow> exn + jv" where
  "dict_item d k = (case map_of d k of None \<Rightarrow> Inl KeyError | Some v \<Rightarrow> Inr v)"

text \<open>
  An Overpass element: \<^verbatim>\<open>type\<close>, \<^verbatim>\<open>lat\<close>, \<^verbatim>\<open>lon\<close>, the \<^verbatim>\<open>center\<close> sub-object and the
  \<^verbatim>\<open>tags\<close> mapping. \<open>None\<close> is a key that is missing or null; the source reads a
  missing or null \<^verbatim>\<open>tags\<close> as \<^verbatim>\<open>{}\<close>, here the empty list.
\<close>

record center =
  c_lat :: "real option"
  c_lon :: "real option"

record element =
  el_type :: "string option"
  el_lat :: "real option"
  el_lon :: "real option"
  el_center :: "center option"
  el_tags :: "(string \<times> string) list"

text \<open>
  An Open-Meteo response: the \<^verbatim>\<open>current_weather\<close> object (\<open>None\<close>: missing or null)
  and the \<^verbatim>\<open>hourly\<close> object with its two parallel arrays (\<open>None\<close>: missing, which the
  source reads as \<^verbatim>\<open>{}\<close>; a missing array is read as \<^verbatim>\<open>[]\<close>). An entry of the
  probability array is a number or null.
\<close>

record hourly_series =
  h_time :: "string list"
  h_precipitation_probability :: "real option list"

record weather_data =
  current_weather :: "jobject option"
  hourly :: "hourly_series option"

text \<open>
  The world outside the program. A provider answers \<open>None\<close> when the request raises
  (timeout, network error, HTTP error status, body that is not JSON of the expected
  shape). \<open>str_to_float\<close> is Python's \<^verbatim>\<open>float\<close> on a string and \<open>fromisoformat\<close> is
  \<^verbatim>\<open>datetime.fromisoformat(s).replace(tzinfo=None)\<close> as microseconds of the naive
  wall-clock time; both answer \<open>None\<close> where Python raises. \<open>machine\<close> is the float
  arithmetic the distance is computed with.
\<close>

record env =
  nominatim :: "string \<Rightarrow> int \<Rightarrow> jobject list option"
  open_meteo :: "real \<Rightarrow> real \<Rightarrow> weather_data option"
  overpass :: "int \<Rightarrow> real \<Rightarrow> real \<Rightarrow> element list option"
  str_to_float :: "string \<Rightarrow> real option"
  fromisoformat :: "string \<Rightarrow> int option"
  machine :: arith

datatype call = NominatimGet string int | OpenMeteoGet real real | OverpassPost int real real

subsection \<open>Child agent: geocoding\<close>

record geocode =
  g_lat :: real
  g_lon :: real
  g_display_name :: jv
  g_raw :: jobject

definition py_float :: "env \<Rightarrow> jv \<Rightarrow> exn + real" where
  "py_float e v =
     (case v of
        JNum r \<Rightarrow> Inr r
      | JStr s \<Rightarrow> (case str_to_float e s of None \<Rightarrow> Inl ValueError | Some r \<Rightarrow> Inr r)
      | JNull \<Rightarrow> Inl TypeError)"

definition geocode_try :: "env \<Rightarrow> string \<Rightarrow> int \<Rightarrow> exn + geocode option" where
  \<comment> \<open>the body of the \<^verbatim>\<open>try\<close>\<close>
  "geocode_try e place limit =
     (case nominatim e place limit of
        None \<Rightarrow> Inl RequestException
      | Some data \<Rightarrow>
          (case data of
             [] \<Rightarrow> Inr None
           | item # _ \<Rightarrow>
               (case dict_item item ''lat'' of
                  Inl x \<Rightarrow> Inl x
                | Inr vlat \<Rightarrow>
                    (case py_float e vlat of
                       Inl x \<Rightarrow> Inl x
                     | Inr lat \<Rightarrow>
                         (case dict_item item ''lon'' of
                            Inl x \<Rightarrow> Inl x
                          | Inr vlon \<Rightarrow>
                              (case py_float e vlon of
                                 Inl x \<Rightarrow> Inl x
                               | Inr lon \<Rightarrow>
                                   Inr (Some \<lparr>g_lat = lat, g_lon = lon,
                                     g_display_name =
                                       (case map_of item ''display_name'' of
                                          None \<Rightarrow> JStr place
                                        | Some v \<Rightarrow> v),
                                     g_raw = item\<rparr>)))))))"

definition geocode_place :: "env \<Rightarrow> string \<Rightarrow> int \<Rightarrow> geocode option \<times> call list" where
  "geocode_place e place limit =
     ((case geocode_try e place limit of Inl x \<Rightarrow> None | Inr r \<Rightarrow> r),
      [NominatimGet place limit])"

subsection \<open>Child agent: weather\<close>

record weather =
  w_temperature :: jv
  w_windspeed :: jv
  w_time :: jv
  w_precip_prob :: "int option"
  w_raw :: weather_data

definition py_round :: "real \<Rightarrow> int" where
  \<comment> \<open>\<^verbatim>\<open>int(round(x))\<close>: to the nearest integer, a half to the even neighbour\<close>
  "py_round x =
     (let f = \<lfloor>x\<rfloor>; d = x - of_int f
      in if d < 1 / 2 then f else if 1 / 2 < d then f + 1 else if even f then f else f + 1)"

fun index_of :: "'a \<Rightarrow> 'a list \<Rightarrow> nat option" where
  \<comment> \<open>\<^verbatim>\<open>xs.index(x)\<close>: the first position, \<open>None\<close> where Python raises \<^verbatim>\<open>ValueError\<close>\<close>
  "index_of x [] = None"
| "index_of x (y # ys) = (if y = x then Some 0 else map_option Suc (index_of x ys))"

definition list_index :: "'a \<Rightarrow> 'a list \<Rightarrow> exn + nat" where
  "list_index x xs = (case index_of x xs of None \<Rightarrow> Inl ValueError | Some i \<Rightarrow> Inr i)"

definition py_min :: "real list \<Rightarrow> exn + real" where
  "py_min xs = (case xs of [] \<Rightarrow> Inl ValueError | _ \<Rightarrow> Inr (min_list xs))"

text \<open>
  \<^verbatim>\<open>timedelta.total_seconds()\<close> divides the microseconds of the difference by \<open>10\<^sup>6\<close> as
  a float: the quotient rounded to the nearest double, a tie to the even significand.
  \<open>double_round\<close> is that rounding on the normal range, which holds every quotient of a
  \<^verbatim>\<open>timedelta\<close>: the value is scaled so that its binade \<open>[2\<^sup>e, 2\<^sup>e\<^sup>+\<^sup>1)\<close> becomes
  \<open>[2\<^sup>5\<^sup>2, 2\<^sup>5\<^sup>3)\<close>, rounded to an integer, and scaled back.
\<close>

definition double_round :: "real \<Rightarrow> real" where
  "double_round x =
     (if x = 0 then 0
      else (let e = \<lfloor>log 2 \<bar>x\<bar>\<rfloor>; q = 2 powr (of_int (e - 52))
            in of_int (py_round (x / q)) * q))"

definition total_seconds :: "int \<Rightarrow> real" where
  "total_seconds us = double_round (of_int us / 1000000)"

definition to_ts :: "env \<Rightarrow> jv \<Rightarrow> exn + int" where
  "to_ts e v =
     (case v of
        JStr s \<Rightarrow> (case fromisoformat e s of None \<Rightarrow> Inl ValueError | Some t \<Rightarrow> Inr t)
      | _ \<Rightarrow> Inl TypeError)"

fun to_ts_all :: "env \<Rightarrow> string list \<Rightarrow> exn + int list" where
  \<comment> \<open>\<^verbatim>\<open>[to_ts(t) for t in times]\<close>, stopping at the first timestamp that raises\<close>
  "to_ts_all e [] = Inr []"
| "to_ts_all e (t # ts) =
     (case to_ts e (JStr t) of
        Inl x \<Rightarrow> Inl x
      | Inr v \<Rightarrow> (case to_ts_all e ts of Inl x \<Rightarrow> Inl x | Inr vs \<Rightarrow> Inr (v # vs)))"

definition prob_at :: "real option list \<Rightarrow> nat \<Rightarrow> exn + int" where
  \<comment> \<open>\<^verbatim>\<open>int(round(probs[idx]))\<close>\<close>
  "prob_at probs idx =
     (if idx < length probs
      then (case probs ! idx of None \<Rightarrow> Inl TypeError | Some p \<Rightarrow> Inr (py_round p))
      else Inl IndexError)"

definition in_times :: "jv \<Rightarrow> string list \<Rightarrow> bool" where
  \<comment> \<open>\<^verbatim>\<open>curtime in times\<close>\<close>
  "in_times v tms = (case v of JStr s \<Rightarrow> s \<in> set tms | _ \<Rightarrow> False)"

definition precip_try :: "env \<Rightarrow> weather_data \<Rightarrow> jobject \<Rightarrow> exn + int option" where
  \<comment> \<open>the body of the inner \<^verbatim>\<open>try\<close>; the result is the final \<^verbatim>\<open>precip_prob\<close>;
      \<open>tms\<close> and \<open>cw\<close> are the source's \<^verbatim>\<open>times\<close> and \<^verbatim>\<open>curr\<close>\<close>
  "precip_try e data cw =
     (let tms = (case hourly data of None \<Rightarrow> [] | Some h \<Rightarrow> h_time h);
          probs = (case hourly data of None \<Rightarrow> [] | Some h \<Rightarrow> h_precipitation_probability h)
      in if tms \<noteq> [] \<and> probs \<noteq> [] then
           (let curtime = dict_get cw ''time''
            in if in_times curtime tms then
                 (case list_index curtime (map JStr tms) of
                    Inl x \<Rightarrow> Inl x
                  | Inr idx \<Rightarrow> map_sum id Some (prob_at probs idx))
               else
                 (case to_ts_all e tms of
                    Inl x \<Rightarrow> Inl x
                  | Inr times_ts \<Rightarrow>
                      (case to_ts e curtime of
                         Inl x \<Rightarrow> Inl x
                       | Inr cur_ts \<Rightarrow>
                           (let diffs = map (\<lambda>t. \<bar>total_seconds (cur_ts - t)\<bar>) times_ts
                            in case py_min diffs of
                                 Inl x \<Rightarrow> Inl x
                               | Inr m \<Rightarrow>
                                   (case list_index m diffs of
                                      Inl x \<Rightarrow> Inl x
                                    | Inr idx \<Rightarrow> map_sum id Some (prob_at probs idx))))))
         else Inr None)"

definition get_weather :: "env \<Rightarrow> real \<Rightarrow> real \<Rightarrow> weather option \<times> call list" where
  "get_weather e lat lon =
     ((case open_meteo e lat lon of
         None \<Rightarrow> None
       | Some data \<Rightarrow>
           (case current_weather data of
              None \<Rightarrow> None
            | Some cw \<Rightarrow>
                if cw = [] then None
                else Some \<lparr>w_temperature = dict_get cw ''temperature'',
                           w_windspeed = dict_get cw ''windspeed'',
                           w_time = dict_get cw ''time'',
                           w_precip_prob =
                             (case precip_try e data cw of Inl x \<Rightarrow> None | Inr p \<Rightarrow> p),
                           w_raw = data\<rparr>)),
      [OpenMeteoGet lat lon])"

subsection \<open>Child agent: places\<close>

record poi =
  p_name :: string
  p_tags :: "(string \<times> string) list"
  p_type :: string
  p_lat :: "real option"
  p_lon :: "real option"
  p_distance_km :: "real option"

definition truthy :: "real option \<Rightarrow> bool" where
  \<comment> \<open>Python's truth value of a number or \<^verbatim>\<open>None\<close>: \<^verbatim>\<open>None\<close> and zero are false\<close>
  "truthy v = (case v of None \<Rightarrow> False | Some x \<Rightarrow> x \<noteq> 0)"

fun primary_tag :: "(string \<times> string) list \<Rightarrow> string list \<Rightarrow> string option" where
  \<comment> \<open>the loop over the tag keys, leaving at the first key with a non-empty value\<close>
  "primary_tag tags [] = None"
| "primary_tag tags (k # ks) =
     (case map_of tags k of
        None \<Rightarrow> primary_tag tags ks
      | Some v \<Rightarrow> if v = [] then primary_tag tags ks else Some (k @ ''='' @ v))"

definition make_place ::
  "arith \<Rightarrow> real \<Rightarrow> real \<Rightarrow> string \<Rightarrow> (string \<times> string) list \<Rightarrow> real option \<Rightarrow> real option
     \<Rightarrow> exn + poi" where
  \<comment> \<open>the distance, the primary tag and the appended dictionary; raises where
      \<^verbatim>\<open>haversine\<close> does\<close>
  "make_place ar lat lon name tags plat plon =
     (case (if truthy plat \<and> truthy plon
            then map_sum id Some (haversine_m ar lat lon (the plat) (the plon))
            else Inr None) of
        Inl x \<Rightarrow> Inl x
      | Inr distance \<Rightarrow>
          (let primary = primary_tag tags [''tourism'', ''historic'', ''leisure'', ''amenity'']
           in Inr \<lparr>p_name = name, p_tags = tags,
                   p_type = (case primary of None \<Rightarrow> ''other'' | Some t \<Rightarrow> t),
                   p_lat = plat, p_lon = plon, p_distance_km = distance\<rparr>))"

definition visit ::
  "arith \<Rightarrow> real \<Rightarrow> real \<Rightarrow> element \<Rightarrow> string set \<times> poi list
     \<Rightarrow> exn + string set \<times> poi list" where
  \<comment> \<open>one pass of the loop body over the state \<^verbatim>\<open>(seen_names, places)\<close>\<close>
  "visit ar lat lon el st =
     (let seen_names = fst st; places = snd st; tags = el_tags el
      in case map_of tags ''name'' of
           None \<Rightarrow> Inr st
         | Some name \<Rightarrow>
             if name = [] then Inr st
             else if name \<in> seen_names then Inr st
             else
               (let seen_names' = insert name seen_names
                in if el_type el = Some ''node'' then
                     (case make_place ar lat lon name tags (el_lat el) (el_lon el) of
                        Inl x \<Rightarrow> Inl x
                      | Inr p \<Rightarrow> Inr (seen_names', places @ [p]))
                   else
                     (let plat = (case el_center el of None \<Rightarrow> None | Some c \<Rightarrow> c_lat c);
                          plon = (case el_center el of None \<Rightarrow> None | Some c \<Rightarrow> c_lon c)
                      in if plat = None \<or> plon = None then Inr (seen_names', places)
                         else
                           (case make_place ar lat lon name tags plat plon of
                              Inl x \<Rightarrow> Inl x
                            | Inr p \<Rightarrow> Inr (seen_names', places @ [p])))))"

fun scan_elems ::
  "arith \<Rightarrow> real \<Rightarrow> real \<Rightarrow> element list \<Rightarrow> string set \<times> poi list
     \<Rightarrow> exn + string set \<times> poi list" where
  \<comment> \<open>\<^verbatim>\<open>for el in elems\<close>, left at the first pass that raises\<close>
  "scan_elems ar lat lon [] st = Inr st"
| "scan_elems ar lat lon (el # els) st =
     (case visit ar lat lon el st of
        Inl x \<Rightarrow> Inl x
      | Inr st' \<Rightarrow> scan_elems ar lat lon els st')"

definition slice_to :: "'a list \<Rightarrow> int \<Rightarrow> 'a list" where
  \<comment> \<open>\<^verbatim>\<open>xs[:n]\<close>; a negative \<open>n\<close> counts from the end\<close>
  "slice_to xs n =
     (if 0 \<le> n then take (nat n) xs else take (length xs - nat (- n)) xs)"

definition rank_places :: "poi list \<Rightarrow> int \<Rightarrow> poi list" where
  \<comment> \<open>the sort, the extension by the remaining places and the final slice\<close>
  "rank_places places max_places =
     (let places_sorted =
            sort_key (\<lambda>x. the (p_distance_km x)) (filter (\<lambda>p. p_distance_km p \<noteq> None) places);
          places_sorted' =
            (if int (length places_sorted) < max_places
             then places_sorted @ filter (\<lambda>p. p \<notin> set places_sorted) places
             else places_sorted)
      in slice_to places_sorted' max_places)"

definition find_places :: "env \<Rightarrow> real \<Rightarrow> real \<Rightarrow> int \<Rightarrow> int \<Rightarrow> poi list \<times> call list" where
  \<comment> \<open>the outer \<^verbatim>\<open>except\<close> answers \<^verbatim>\<open>[]\<close> for a failed request and for an exception
      raised in the loop\<close>
  "find_places e lat lon radius_m max_places =
     ((case overpass e radius_m lat lon of
         None \<Rightarrow> []
       | Some elems \<Rightarrow>
           (case scan_elems (machine e) lat lon elems ({}, []) of
              Inl x \<Rightarrow> []
            | Inr st \<Rightarrow> rank_places (snd st) max_places)),
      [OverpassPost radius_m lat lon])"

subsection \<open>Parent agent: orchestrator\<close>

record place_info =
  pl_query :: string
  pl_display_name :: jv
  pl_lat :: real
  pl_lon :: real

datatype plan =
    PlanError (plan_error: string)
  | PlanOk (plan_place: place_info) (plan_weather: "weather option") (plan_places: "poi list")

fun ok :: "plan \<Rightarrow> bool" where
  "ok (PlanError m) = False"
| "ok (PlanOk p w ps) = True"

definition not_found_message :: "string \<Rightarrow> string" where
  "not_found_message place_query =
     ''I don'' @ [CHR 0x27] @ ''t know this place exists: '' @ [CHR 0x27] @ place_query
       @ [CHR 0x27] @ ''. Please check spelling or try a different place.''"

definition plan_for_place :: "env \<Rightarrow> string \<Rightarrow> plan \<times> call list" where
  "plan_for_place e place_query =
     (case geocode_place e place_query 1 of
        (None, c1) \<Rightarrow> (PlanError (not_found_message place_query), c1)
      | (Some g, c1) \<Rightarrow>
          (let lat = g_lat g;
               lon = g_lon g;
               display_name = g_display_name g
           in case get_weather e lat lon of
                (weather, c2) \<Rightarrow>
                  (case find_places e lat lon 20000 5 of
                     (places, c3) \<Rightarrow>
                       (PlanOk \<lparr>pl_query = place_query, pl_display_name = display_name,
                                 pl_lat = lat, pl_lon = lon\<rparr> weather places,
                        c1 @ c2 @ c3))))"

subsection \<open>A reading of the timestamp parser\<close>

text \<open>
  \<^verbatim>\<open>datetime.fromisoformat\<close> is Python library code and stays a field of the
  environment. \<open>iso_minute\<close> is what it answers on the sixteen-character form
  \<^verbatim>\<open>YYYY-MM-DDTHH:MM\<close> in which Open-Meteo writes its timestamps: the proleptic
  Gregorian day number of the date, then hours and minutes, in microseconds;
  \<open>iso_micro\<close> adds seconds and microseconds. \<open>iso_datetime\<close> rejects every other string
  (Python accepts more forms) and serves only to run the weather agent on the concrete
  responses of the sample world; no general property below depends on it.
\<close>

fun digits_acc :: "nat \<Rightarrow> string \<Rightarrow> nat option" where
  "digits_acc n [] = Some n"
| "digits_acc n (c # cs) =
     (let k = (of_char c :: nat)
      in if 48 \<le> k \<and> k \<le> 57 then digits_acc (10 * n + (k - 48)) cs else None)"

definition is_leap :: "nat \<Rightarrow> bool" where
  "is_leap y = (y mod 4 = 0 \<and> (y mod 100 \<noteq> 0 \<or> y mod 400 = 0))"

definition days_in_month :: "nat \<Rightarrow> nat \<Rightarrow> nat" where
  "days_in_month y m =
     (if m = 2 then (if is_leap y then 29 else 28)
      else if m = 4 \<or> m = 6 \<or> m = 9 \<or> m = 11 then 30 else 31)"

definition days_before_year :: "nat \<Rightarrow> nat" where
  "days_before_year y = (y - 1) * 365 + (y - 1) div 4 - (y - 1) div 100 + (y - 1) div 400"

definition days_before_month :: "nat \<Rightarrow> nat \<Rightarrow> nat" where
  "days_before_month y m =
     [0, 31, 59, 90, 120, 151, 181, 212, 243, 273, 304, 334] ! (m - 1)
       + (if 2 < m \<and> is_leap y then 1 else 0)"

definition iso_minute :: "string \<Rightarrow> int option" where
  "iso_minute s =
     (if length s = 16 \<and> s ! 4 = CHR ''-'' \<and> s ! 7 = CHR ''-'' \<and> s ! 10 = CHR ''T''
         \<and> s ! 13 = CHR '':''
      then
        (case (digits_acc 0 (take 4 s), digits_acc 0 (take 2 (drop 5 s)),
               digits_acc 0 (take 2 (drop 8 s)), digits_acc 0 (take 2 (drop 11 s)),
               digits_acc 0 (drop 14 s)) of
           (Some y, Some m, Some d, Some h, Some mi) \<Rightarrow>
             if 1 \<le> y \<and> 1 \<le> m \<and> m \<le> 12 \<and> 1 \<le> d \<and> d \<le> days_in_month y m
                \<and> h < 24 \<and> mi < 60
             then Some (int ((((days_before_year y + days_before_month y m + d) * 24 + h) * 60
                               + mi) * 60000000))
             else None
         | _ \<Rightarrow> None)
      else None)"

definition iso_micro :: "string \<Rightarrow> int option" where
  \<comment> \<open>the same on the form \<^verbatim>\<open>YYYY-MM-DDTHH:MM:SS.ffffff\<close>\<close>
  "iso_micro s =
     (if length s = 26 \<and> s ! 16 = CHR '':'' \<and> s ! 19 = CHR ''.''
      then
        (case (iso_minute (take 16 s), digits_acc 0 (take 2 (drop 17 s)),
               digits_acc 0 (drop 20 s)) of
           (Some m, Some sec, Some us) \<Rightarrow>
             if sec < 60 then Some (m + int (sec * 1000000 + us)) else None
         | _ \<Rightarrow> None)
      else None)"

definition iso_datetime :: "string \<Rightarrow> int option" where
  "iso_datetime s = (if length s = 16 then iso_minute s else iso_micro s)"

subsection \<open>A sample world\<close>

text \<open>
  A world to run the agents in: the geocoder knows Bangalore at \<open>(12.97, 77.59)\<close>
  without a display name and finds nothing for any other query, the weather provider
  answers two hourly entries and the current-conditions time it is given, the map
  provider answers four elements, two of them with the same name, and the arithmetic is
  exact.
\<close>

definition sample_weather :: "string \<Rightarrow> weather_data" where
  "sample_weather now =
     \<lparr>current_weather =
        Some [(''temperature'', JNum 25), (''windspeed'', JNum 3), (''time'', JStr now)],
      hourly =
        Some \<lparr>h_time = [''2024-01-01T10:00'', ''2024-01-01T11:00''],
               h_precipitation_probability = [Some 10, Some 80]\<rparr>\<rparr>"

definition sample_elements :: "element list" where
  "sample_elements =
     [\<lparr>el_type = Some ''node'', el_lat = Some 13, el_lon = Some 77, el_center = None,
       el_tags = [(''name'', ''Fort''), (''historic'', ''fort'')]\<rparr>,
      \<lparr>el_type = Some ''way'', el_lat = None, el_lon = None,
       el_center = Some \<lparr>c_lat = Some 12.97, c_lon = Some 77.59\<rparr>,
       el_tags = [(''name'', ''Park''), (''leisure'', ''park'')]\<rparr>,
      \<lparr>el_type = Some ''node'', el_lat = Some 12, el_lon = Some 78, el_center = None,
       el_tags = [(''name'', ''Fort''), (''tourism'', ''attraction'')]\<rparr>,
      \<lparr>el_type = Some ''node'', el_lat = None, el_lon = None, el_center = None,
       el_tags = [(''name'', ''Well'')]\<rparr>]"

definition sample_env :: "string \<Rightarrow> env" where
  "sample_env now =
     \<lparr>nominatim = (\<lambda>q limit. if q = ''Bangalore''
                        then Some [[(''lat'', JStr ''12.97''), (''lon'', JStr ''77.59'')]]
                        else Some []),
      open_meteo = (\<lambda>lat lon. Some (sample_weather now)),
      overpass = (\<lambda>radius_m lat lon. Some sample_elements),
      str_to_float = (\<lambda>s. if s = ''12.97'' then Some 12.97
                          else if s = ''77.59'' then Some 77.59 else None),
      fromisoformat = iso_datetime,
      machine = exact_arith\<rparr>"

definition far_weather :: weather_data where
  \<comment> \<open>two hourly entries a microsecond apart, 9998 years after the current time\<close>
  "far_weather =
     \<lparr>current_weather =
        Some [(''temperature'', JNum 25), (''windspeed'', JNum 3),
              (''time'', JStr ''0001-01-01T00:00'')],
      hourly =
        Some \<lparr>h_time = [''9999-01-01T00:00:00.000002'', ''9999-01-01T00:00:00.000001''],
               h_precipitation_probability = [Some 10, Some 80]\<rparr>\<rparr>"

section \<open>Properties\<close>

subsection \<open>The distance\<close>

lemma haversine_a_symmetric:
  "haversine_a lat1 lon1 lat2 lon2 = haversine_a lat2 lon2 lat1 lon1"
proof -
  have s: "(sin (radians (x - y) / 2))\<^sup>2 = (sin (radians (y - x) / 2))\<^sup>2" for x y :: real
  proof -
    have "radians (x - y) / 2 = - (radians (y - x) / 2)"
      by (simp add: radians_def field_simps)
    then show ?thesis by (simp only: sin_minus power2_minus)
  qed
  show ?thesis
    unfolding haversine_a_def Let_def
    by (simp only: s [of lat2 lat1] s [of lon2 lon1] mult.commute [of "cos (radians lat1)"])
qed

lemma haversine_a_same: "haversine_a lat lon lat lon = 0"
  by (simp add: haversine_a_def radians_def)

text \<open>
  Claim C7. The distance is symmetric in its two coordinates, and the distance from a
  coordinate to itself is zero.
\<close>

theorem haversine_symmetric_zero:
  "haversine lat1 lon1 lat2 lon2 = haversine lat2 lon2 lat1 lon1
   \<and> haversine lat1 lon1 lat1 lon1 = 0"
  unfolding haversine_def Let_def
  by (simp add: haversine_a_symmetric [of lat1 lon1 lat2 lon2] haversine_a_same)






text \<open>
  The symmetry of the distance does not depend on exact arithmetic: it holds on every
  machine whose subtraction, \<^verbatim>\<open>radians\<close>, halving and sine are odd, whose square is
  even and whose product commutes, as the operations of doubles are.
\<close>

lemma haversine_m_symmetric:
  assumes sub: "\<And>x y. f_sub ar y x = - f_sub ar x y"
    and rad: "\<And>x. m_radians ar (- x) = - m_radians ar x"
    and half: "\<And>x. f_div ar (- x) 2 = - f_div ar x 2"
    and sin: "\<And>x. m_sin ar (- x) = - m_sin ar x"
    and sq: "\<And>x. f_sq ar (- x) = f_sq ar x"
    and mul: "\<And>x y. f_mul ar x y = f_mul ar y x"
  shows "haversine_m ar lat1 lon1 lat2 lon2 = haversine_m ar lat2 lon2 lat1 lon1"
proof -
  have s: "f_sq ar (m_sin ar (f_div ar (m_radians ar (f_sub ar y x)) 2)) =
           f_sq ar (m_sin ar (f_div ar (m_radians ar (f_sub ar x y)) 2))" for x y
    by (simp only: sub [of x y] rad half sin sq)
  have c: "f_mul ar (m_cos ar (m_radians ar lat1)) (m_cos ar (m_radians ar lat2)) =
           f_mul ar (m_cos ar (m_radians ar lat2)) (m_cos ar (m_radians ar lat1))"
    by (rule mul)
  show ?thesis
    unfolding haversine_m_def Let_def
    by (simp only: s [of lat1 lat2] s [of lon1 lon2] c)
qed

lemma haversine_m_same:
  assumes "zero_exact ar"
  shows "haversine_m ar lat lon lat lon = Inr 0"
  using assms by (simp add: zero_exact_def haversine_m_def)

lemma zero_exact_exact_arith: "zero_exact exact_arith"
  by (simp add: zero_exact_def exact_arith_def radians_def)

text \<open>
  Claim C8, as amended. For latitudes in \<open>[-90, 90]\<close> and longitudes in \<open>[-180, 180]\<close>,
  equal coordinates are at distance zero: in exact arithmetic, and on every machine
  whose operations are exact at zero, as those of doubles are. The converse is not
  claimed.
\<close>

theorem haversine_zero_if_equal:
  assumes "- 90 \<le> lat1" "lat1 \<le> 90" "- 90 \<le> lat2" "lat2 \<le> 90"
    and "- 180 \<le> lon1" "lon1 \<le> 180" "- 180 \<le> lon2" "lon2 \<le> 180"
    and "(lat1, lon1) = (lat2, lon2)"
  shows "haversine lat1 lon1 lat2 lon2 = 0
       \<and> (zero_exact ar \<longrightarrow> haversine_m ar lat1 lon1 lat2 lon2 = Inr 0)"
  using assms(9) haversine_a_same [of lat1 lon1] haversine_m_same [of ar lat1 lon1]
  by (simp add: haversine_def)

theorem haversine_zero_if_equal_witness:
  "- 90 \<le> (45::real) \<and> (45::real) \<le> 90 \<and> - 180 \<le> (10::real) \<and> (10::real) \<le> 180
   \<and> zero_exact exact_arith
   \<and> haversine 45 10 45 10 = 0 \<and> haversine_m exact_arith 45 10 45 10 = Inr 0"
  using haversine_zero_if_equal [of 45 45 10 10 exact_arith] zero_exact_exact_arith by simp

text \<open>
  Claim C8 as stated fails: two distinct coordinates at the north pole are at distance
  zero, since \<open>cos (radians 90) = 0\<close> removes the longitude term. The second longitude
  is taken so small that the double-precision evaluation, where \<^verbatim>\<open>cos(radians(90.0))\<close>
  is about \<^verbatim>\<open>6.1e-17\<close>, underflows to exactly \<^verbatim>\<open>0.0\<close> as well. (In doubles the
  distance is zero for other distinct pairs too, wherever the sum under the root
  underflows, and is not zero at a pole for longitudes further apart; so no converse is
  kept in the amended claim.)
\<close>

theorem haversine_zero_counterexample:
  "- 90 \<le> (90::real) \<and> (90::real) \<le> 90 \<and> - 180 \<le> (0::real) \<and> (1 / 10 ^ 150 :: real) \<le> 180
   \<and> haversine 90 0 90 (1 / 10 ^ 150) = 0 \<and> (90::real, 0::real) \<noteq> (90, 1 / 10 ^ 150)"
  by (simp add: haversine_def haversine_a_def radians_def)

subsection \<open>The orchestrator and the geocoding agent\<close>

lemma geocode_place_calls: "snd (geocode_place e q limit) = [NominatimGet q limit]"
  by (simp add: geocode_place_def)

lemma get_weather_calls: "snd (get_weather e lat lon) = [OpenMeteoGet lat lon]"
  by (simp add: get_weather_def)

lemma find_places_calls: "snd (find_places e lat lon r m) = [OverpassPost r lat lon]"
  by (simp add: find_places_def)

lemma plan_for_place_None:
  "fst (geocode_place e q 1) = None \<Longrightarrow>
   plan_for_place e q = (PlanError (not_found_message q), [NominatimGet q 1])"
  by (cases "geocode_place e q 1") (simp add: plan_for_place_def geocode_place_def)

lemma plan_for_place_Some:
  "fst (geocode_place e q 1) = Some g \<Longrightarrow>
   plan_for_place e q =
     (PlanOk \<lparr>pl_query = q, pl_display_name = g_display_name g, pl_lat = g_lat g,
               pl_lon = g_lon g\<rparr>
        (fst (get_weather e (g_lat g) (g_lon g)))
        (fst (find_places e (g_lat g) (g_lon g) 20000 5)),
      [NominatimGet q 1, OpenMeteoGet (g_lat g) (g_lon g),
       OverpassPost 20000 (g_lat g) (g_lon g)])"
proof -
  assume g: "fst (geocode_place e q 1) = Some g"
  have a: "geocode_place e q 1 = (Some g, [NominatimGet q 1])"
    using g geocode_place_calls [of e q 1] by (simp add: prod_eq_iff)
  have b: "get_weather e lat lon = (fst (get_weather e lat lon), [OpenMeteoGet lat lon])"
    for lat lon
    using get_weather_calls [of e lat lon] by (simp add: prod_eq_iff)
  have c: "find_places e lat lon r m = (fst (find_places e lat lon r m), [OverpassPost r lat lon])"
    for lat lon r m
    using find_places_calls [of e lat lon r m] by (simp add: prod_eq_iff)
  show ?thesis
    unfolding plan_for_place_def a Let_def
    by (subst b, subst c) simp
qed

text \<open>
  Claim C1. When the geocoding agent answers \<open>None\<close> for a query, the plan is the
  failure result (\<open>ok\<close> is false) whose message carries the query verbatim between
  apostrophes, the only provider request made is the geocoding one, and no request goes
  to the weather provider or to the map provider.
\<close>

theorem plan_not_found:
  assumes "fst (geocode_place e q 1) = None"
  shows "\<not> ok (fst (plan_for_place e q))
    \<and> fst (plan_for_place e q) =
        PlanError (''I don'' @ [CHR 0x27] @ ''t know this place exists: '' @ [CHR 0x27] @ q
          @ [CHR 0x27] @ ''. Please check spelling or try a different place.'')
    \<and> snd (plan_for_place e q) = [NominatimGet q 1]
    \<and> (\<forall>lat lon. OpenMeteoGet lat lon \<notin> set (snd (plan_for_place e q)))
    \<and> (\<forall>r lat lon. OverpassPost r lat lon \<notin> set (snd (plan_for_place e q)))"
  using plan_for_place_None [OF assms] by (simp add: not_found_message_def)

lemma sample_geocode_nowhere: "fst (geocode_place (sample_env now) ''Nowhere12345xyz'' 1) = None"
  by (simp add: geocode_place_def geocode_try_def sample_env_def)

theorem plan_not_found_witness:
  "fst (geocode_place (sample_env ''2024-01-01T10:40'') ''Nowhere12345xyz'' 1) = None
   \<and> plan_for_place (sample_env ''2024-01-01T10:40'') ''Nowhere12345xyz'' =
       (PlanError (''I don'' @ [CHR 0x27] @ ''t know this place exists: '' @ [CHR 0x27]
          @ ''Nowhere12345xyz'' @ [CHR 0x27]
          @ ''. Please check spelling or try a different place.''),
        [NominatimGet ''Nowhere12345xyz'' 1])"
  using plan_not_found [OF sample_geocode_nowhere, of "''2024-01-01T10:40''"]
    sample_geocode_nowhere [of "''2024-01-01T10:40''"]
  by (simp add: prod_eq_iff)

lemma py_float_env:
  "str_to_float e' = str_to_float e \<Longrightarrow> py_float e' = py_float e"
  by (rule ext) (simp add: py_float_def split: jv.splits)

lemma geocode_place_env:
  assumes "nominatim e' = nominatim e" "str_to_float e' = str_to_float e"
  shows "geocode_place e' q limit = geocode_place e q limit"
  unfolding geocode_place_def geocode_try_def assms(1) py_float_env [OF assms(2)] ..

lemma find_places_env:
  assumes "overpass e' = overpass e" and "machine e' = machine e"
  shows "find_places e' lat lon r m = find_places e lat lon r m"
  unfolding find_places_def assms ..

lemma to_ts_env: "fromisoformat e' = fromisoformat e \<Longrightarrow> to_ts e' = to_ts e"
  by (rule ext) (simp add: to_ts_def split: jv.splits)

lemma to_ts_all_env:
  "fromisoformat e' = fromisoformat e \<Longrightarrow> to_ts_all e' = to_ts_all e"
proof (rule ext)
  fix ts
  assume "fromisoformat e' = fromisoformat e"
  then show "to_ts_all e' ts = to_ts_all e ts"
    by (induction ts) (simp_all add: to_ts_env [of e' e] split: sum.splits)
qed

lemma get_weather_env:
  assumes "open_meteo e' = open_meteo e" "fromisoformat e' = fromisoformat e"
  shows "get_weather e' lat lon = get_weather e lat lon"
  unfolding get_weather_def precip_try_def assms(1) to_ts_env [OF assms(2)]
    to_ts_all_env [OF assms(2)] ..

text \<open>
  Claim C2. When the geocoding agent succeeds, the plan is a success whatever the two
  other agents answer: its place is the geocoded one, its weather and places fields are
  the two agents' answers, a failed weather request leaves the weather field \<open>None\<close>,
  a failed map request leaves the places empty, and replacing the weather provider
  changes neither the place nor the places, as replacing the map provider changes
  neither the place nor the weather.
\<close>

theorem plan_soft_dependencies:
  assumes "fst (geocode_place e q 1) = Some g"
  shows "ok (fst (plan_for_place e q))
    \<and> plan_place (fst (plan_for_place e q)) =
        \<lparr>pl_query = q, pl_display_name = g_display_name g, pl_lat = g_lat g, pl_lon = g_lon g\<rparr>
    \<and> plan_weather (fst (plan_for_place e q)) = fst (get_weather e (g_lat g) (g_lon g))
    \<and> plan_places (fst (plan_for_place e q)) = fst (find_places e (g_lat g) (g_lon g) 20000 5)
    \<and> (open_meteo e (g_lat g) (g_lon g) = None \<longrightarrow>
         plan_weather (fst (plan_for_place e q)) = None)
    \<and> (overpass e 20000 (g_lat g) (g_lon g) = None \<longrightarrow>
         plan_places (fst (plan_for_place e q)) = [])
    \<and> (\<forall>w. ok (fst (plan_for_place (e\<lparr>open_meteo := w\<rparr>) q))
           \<and> plan_place (fst (plan_for_place (e\<lparr>open_meteo := w\<rparr>) q)) =
               plan_place (fst (plan_for_place e q))
           \<and> plan_places (fst (plan_for_place (e\<lparr>open_meteo := w\<rparr>) q)) =
               plan_places (fst (plan_for_place e q)))
    \<and> (\<forall>p. ok (fst (plan_for_place (e\<lparr>overpass := p\<rparr>) q))
           \<and> plan_place (fst (plan_for_place (e\<lparr>overpass := p\<rparr>) q)) =
               plan_place (fst (plan_for_place e q))
           \<and> plan_weather (fst (plan_for_place (e\<lparr>overpass := p\<rparr>) q)) =
               plan_weather (fst (plan_for_place e q)))"
proof -
  note p = plan_for_place_Some [OF assms]
  have w: "fst (geocode_place (e\<lparr>open_meteo := w\<rparr>) q 1) = Some g" for w
    using assms geocode_place_env [of "e\<lparr>open_meteo := w\<rparr>" e q 1] by simp
  have o: "fst (geocode_place (e\<lparr>overpass := p\<rparr>) q 1) = Some g" for p
    using assms geocode_place_env [of "e\<lparr>overpass := p\<rparr>" e q 1] by simp
  have fw: "find_places (e\<lparr>open_meteo := w\<rparr>) lat lon r m = find_places e lat lon r m"
    for w lat lon r m
    by (rule find_places_env) simp_all
  have wo: "get_weather (e\<lparr>overpass := p\<rparr>) lat lon = get_weather e lat lon" for p lat lon
    by (rule get_weather_env) simp_all
  have 1: "open_meteo e (g_lat g) (g_lon g) = None \<longrightarrow>
           fst (get_weather e (g_lat g) (g_lon g)) = None"
    by (simp add: get_weather_def)
  have 2: "overpass e 20000 (g_lat g) (g_lon g) = None \<longrightarrow>
           fst (find_places e (g_lat g) (g_lon g) 20000 5) = []"
    by (simp add: find_places_def)
  show ?thesis
    using 1 2 by (simp add: p plan_for_place_Some [OF w] plan_for_place_Some [OF o] fw wo)
qed

lemma sample_geocode_bangalore:
  "fst (geocode_place (sample_env now) ''Bangalore'' 1) =
   Some \<lparr>g_lat = 12.97, g_lon = 77.59, g_display_name = JStr ''Bangalore'',
         g_raw = [(''lat'', JStr ''12.97''), (''lon'', JStr ''77.59'')]\<rparr>"
  by (simp add: geocode_place_def geocode_try_def sample_env_def dict_item_def py_float_def)

theorem plan_soft_dependencies_witness:
  "fst (geocode_place
         ((sample_env ''2024-01-01T10:40'')
            \<lparr>open_meteo := (\<lambda>lat lon. None), overpass := (\<lambda>r lat lon. None)\<rparr>)
         ''Bangalore'' 1) =
     Some \<lparr>g_lat = 12.97, g_lon = 77.59, g_display_name = JStr ''Bangalore'',
           g_raw = [(''lat'', JStr ''12.97''), (''lon'', JStr ''77.59'')]\<rparr>
   \<and> ok (fst (plan_for_place
         ((sample_env ''2024-01-01T10:40'')
            \<lparr>open_meteo := (\<lambda>lat lon. None), overpass := (\<lambda>r lat lon. None)\<rparr>)
         ''Bangalore''))
   \<and> plan_weather (fst (plan_for_place
         ((sample_env ''2024-01-01T10:40'')
            \<lparr>open_meteo := (\<lambda>lat lon. None), overpass := (\<lambda>r lat lon. None)\<rparr>)
         ''Bangalore'')) = None
   \<and> plan_places (fst (plan_for_place
         ((sample_env ''2024-01-01T10:40'')
            \<lparr>open_meteo := (\<lambda>lat lon. None), overpass := (\<lambda>r lat lon. None)\<rparr>)
         ''Bangalore'')) = []"
proof -
  let ?e = "(sample_env ''2024-01-01T10:40'')
              \<lparr>open_meteo := (\<lambda>lat lon. None), overpass := (\<lambda>r lat lon. None)\<rparr>"
  have "geocode_place ?e ''Bangalore'' 1 =
        geocode_place (sample_env ''2024-01-01T10:40'') ''Bangalore'' 1"
    by (rule geocode_place_env) simp_all
  then have g: "fst (geocode_place ?e ''Bangalore'' 1) =
      Some \<lparr>g_lat = 12.97, g_lon = 77.59, g_display_name = JStr ''Bangalore'',
            g_raw = [(''lat'', JStr ''12.97''), (''lon'', JStr ''77.59'')]\<rparr>"
    by (simp only: sample_geocode_bangalore)
  note t = plan_soft_dependencies [OF g]
  have k: "ok (fst (plan_for_place ?e ''Bangalore''))" using t by (rule conjunct1)
  have w: "plan_weather (fst (plan_for_place ?e ''Bangalore'')) = None"
    using t [THEN conjunct2, THEN conjunct2, THEN conjunct2, THEN conjunct2, THEN conjunct1]
    by simp
  have p: "plan_places (fst (plan_for_place ?e ''Bangalore'')) = []"
    using t [THEN conjunct2, THEN conjunct2, THEN conjunct2, THEN conjunct2, THEN conjunct2,
        THEN conjunct1]
    by simp
  from g k w p show ?thesis by (intro conjI)
qed

text \<open>
  Claim C10. When the first candidate of the geocoding response has a latitude and a
  longitude that \<^verbatim>\<open>float\<close> accepts and no \<^verbatim>\<open>display_name\<close> key, the agent succeeds and
  the display name it returns is the query. (The request asks for one candidate; the
  agent reads the first.)
\<close>

theorem geocode_display_name_fallback:
  assumes "nominatim e place limit = Some (item # rest)"
    and "dict_item item ''lat'' = Inr vlat" and "py_float e vlat = Inr lat"
    and "dict_item item ''lon'' = Inr vlon" and "py_float e vlon = Inr lon"
    and "map_of item ''display_name'' = None"
  shows "fst (geocode_place e place limit) =
         Some \<lparr>g_lat = lat, g_lon = lon, g_display_name = JStr place, g_raw = item\<rparr>"
  using assms by (simp add: geocode_place_def geocode_try_def)

theorem geocode_display_name_fallback_witness:
  "nominatim (sample_env ''2024-01-01T10:40'') ''Bangalore'' 1 =
     Some [[(''lat'', JStr ''12.97''), (''lon'', JStr ''77.59'')]]
   \<and> py_float (sample_env ''2024-01-01T10:40'') (JStr ''12.97'') = Inr 12.97
   \<and> py_float (sample_env ''2024-01-01T10:40'') (JStr ''77.59'') = Inr 77.59
   \<and> map_of [(''lat'', JStr ''12.97''), (''lon'', JStr ''77.59'')] ''display_name'' = None
   \<and> fst (geocode_place (sample_env ''2024-01-01T10:40'') ''Bangalore'' 1) =
       Some \<lparr>g_lat = 12.97, g_lon = 77.59, g_display_name = JStr ''Bangalore'',
             g_raw = [(''lat'', JStr ''12.97''), (''lon'', JStr ''77.59'')]\<rparr>"
proof -
  let ?e = "sample_env ''2024-01-01T10:40''"
  let ?item = "[(''lat'', JStr ''12.97''), (''lon'', JStr ''77.59'')]"
  have 1: "nominatim ?e ''Bangalore'' 1 = Some (?item # [])"
    by (simp add: sample_env_def)
  have 2: "dict_item ?item ''lat'' = Inr (JStr ''12.97'')"
    and 4: "dict_item ?item ''lon'' = Inr (JStr ''77.59'')"
    by (simp_all add: dict_item_def)
  have 3: "py_float ?e (JStr ''12.97'') = Inr 12.97"
    and 5: "py_float ?e (JStr ''77.59'') = Inr 77.59"
    by (simp_all add: py_float_def sample_env_def)
  have 6: "map_of ?item ''display_name'' = None" by simp
  show ?thesis
    using geocode_display_name_fallback [OF 1 2 3 4 5 6] 1 3 5 6 by simp
qed

subsection \<open>The places agent\<close>

lemma make_place_Inr:
  assumes "make_place ar lat lon name tags plat plon = Inr p"
  shows "p_name p = name" and "p_lat p = plat" and "p_lon p = plon"
    and "if truthy plat \<and> truthy plon
         then map_sum id Some (haversine_m ar lat lon (the plat) (the plon)) = Inr (p_distance_km p)
         else p_distance_km p = None"
  using assms by (auto simp: make_place_def Let_def split: sum.splits if_splits)

lemma visit_cases:
  assumes "visit ar lat lon el st = Inr st'"
  shows "st' = st
       \<or> (\<exists>name. map_of (el_tags el) ''name'' = Some name \<and> name \<notin> fst st
             \<and> fst st' = insert name (fst st) \<and> snd st' = snd st)
       \<or> (\<exists>name p plat plon. map_of (el_tags el) ''name'' = Some name \<and> name \<notin> fst st
             \<and> make_place ar lat lon name (el_tags el) plat plon = Inr p
             \<and> fst st' = insert name (fst st) \<and> snd st' = snd st @ [p])"
  using assms
  by (auto simp: visit_def Let_def split: option.splits if_splits sum.splits)

lemma visit_invariant:
  assumes "visit ar lat lon el st = Inr st'"
    and "p_name ` set (snd st) \<subseteq> fst st" and "distinct (map p_name (snd st))"
  shows "p_name ` set (snd st') \<subseteq> fst st' \<and> distinct (map p_name (snd st'))"
  using visit_cases [OF assms(1)]
proof (elim disjE exE conjE)
  assume "st' = st"
  with assms(2,3) show ?thesis by simp
next
  fix name
  assume "fst st' = insert name (fst st)" "snd st' = snd st"
  with assms(2,3) show ?thesis by auto
next
  fix name p plat plon
  assume a: "name \<notin> fst st" "make_place ar lat lon name (el_tags el) plat plon = Inr p"
    "fst st' = insert name (fst st)" "snd st' = snd st @ [p]"
  from make_place_Inr(1) [OF a(2)] have "p_name p = name" .
  with a(1,3,4) assms(2,3) show ?thesis by auto
qed

lemma scan_elems_invariant:
  assumes "scan_elems ar lat lon elems st = Inr st'"
    and "p_name ` set (snd st) \<subseteq> fst st" and "distinct (map p_name (snd st))"
  shows "distinct (map p_name (snd st'))"
  using assms
proof (induction elems arbitrary: st)
  case Nil
  then show ?case by simp
next
  case (Cons el els)
  from Cons.prems(1) obtain st1 where v: "visit ar lat lon el st = Inr st1"
    and s: "scan_elems ar lat lon els st1 = Inr st'"
    by (auto split: sum.splits)
  from visit_invariant [OF v Cons.prems(2,3)] Cons.IH [OF s] show ?case by simp
qed

lemma scan_elems_distinct:
  "scan_elems ar lat lon elems ({}, []) = Inr st \<Longrightarrow> distinct (map p_name (snd st))"
  using scan_elems_invariant [of ar lat lon elems "({}, [])" st] by simp

lemma rank_places_unfold:
  "rank_places ps m =
     slice_to
       (if int (length (filter (\<lambda>p. p_distance_km p \<noteq> None) ps)) < m
        then sort_key (\<lambda>x. the (p_distance_km x)) (filter (\<lambda>p. p_distance_km p \<noteq> None) ps)
             @ filter (\<lambda>p. p_distance_km p = None) ps
        else sort_key (\<lambda>x. the (p_distance_km x)) (filter (\<lambda>p. p_distance_km p \<noteq> None) ps))
       m"
proof -
  let ?S = "sort_key (\<lambda>x. the (p_distance_km x)) (filter (\<lambda>p. p_distance_km p \<noteq> None) ps)"
  have r: "filter (\<lambda>p. p \<notin> set ?S) ps = filter (\<lambda>p. p_distance_km p = None) ps"
    by (rule filter_cong) auto
  have l: "length ?S = length (filter (\<lambda>p. p_distance_km p \<noteq> None) ps)"
    by (rule length_sort)
  show ?thesis unfolding rank_places_def Let_def r l ..
qed

lemma rank_places_take:
  assumes "0 \<le> m"
  shows "rank_places ps m =
         take (nat m)
           (sort_key (\<lambda>x. the (p_distance_km x)) (filter (\<lambda>p. p_distance_km p \<noteq> None) ps)
            @ filter (\<lambda>p. p_distance_km p = None) ps)"
proof (cases "int (length (filter (\<lambda>p. p_distance_km p \<noteq> None) ps)) < m")
  case True
  with assms show ?thesis by (simp only: rank_places_unfold slice_to_def if_True)
next
  case False
  then have "nat m \<le> length (sort_key (\<lambda>x. the (p_distance_km x))
                                  (filter (\<lambda>p. p_distance_km p \<noteq> None) ps))"
    by simp
  then have "take (nat m) (sort_key (\<lambda>x. the (p_distance_km x))
                             (filter (\<lambda>p. p_distance_km p \<noteq> None) ps)
                           @ filter (\<lambda>p. p_distance_km p = None) ps) =
             take (nat m) (sort_key (\<lambda>x. the (p_distance_km x))
                             (filter (\<lambda>p. p_distance_km p \<noteq> None) ps))"
    by simp
  with assms False show ?thesis by (simp only: rank_places_unfold slice_to_def if_True if_False)
qed

lemma rank_places_prefix:
  "\<exists>k. rank_places ps m =
         take k
           (sort_key (\<lambda>x. the (p_distance_km x)) (filter (\<lambda>p. p_distance_km p \<noteq> None) ps)
            @ filter (\<lambda>p. p_distance_km p = None) ps)"
proof (cases "0 \<le> m")
  case True
  then show ?thesis using rank_places_take by blast
next
  case False
  let ?S = "sort_key (\<lambda>x. the (p_distance_km x)) (filter (\<lambda>p. p_distance_km p \<noteq> None) ps)"
  let ?N = "filter (\<lambda>p. p_distance_km p = None) ps"
  from False have "\<not> int (length (filter (\<lambda>p. p_distance_km p \<noteq> None) ps)) < m" by simp
  with False have "rank_places ps m = take (length ?S - nat (- m)) ?S"
    by (simp only: rank_places_unfold slice_to_def if_False)
  also have "\<dots> = take (length ?S - nat (- m)) (?S @ ?N)" by simp
  finally show ?thesis by blast
qed

lemma ranked_mset:
  "mset (sort_key k (filter P ps) @ filter (\<lambda>p. \<not> P p) ps) = mset ps"
  by simp

lemma distinct_map_mset:
  assumes "mset xs = mset ys" and "distinct (map f ys)"
  shows "distinct (map f xs)"
proof -
  have "mset (map f xs) = mset (map f ys)" using assms(1) by simp
  then show ?thesis using assms(2) by (metis mset_eq_imp_distinct_iff)
qed

lemma rank_places_distinct:
  assumes "distinct (map p_name ps)"
  shows "distinct (map p_name (rank_places ps m))"
proof -
  let ?S = "sort_key (\<lambda>x. the (p_distance_km x)) (filter (\<lambda>p. p_distance_km p \<noteq> None) ps)"
  let ?N = "filter (\<lambda>p. p_distance_km p = None) ps"
  obtain k where k: "rank_places ps m = take k (?S @ ?N)" using rank_places_prefix by blast
  have "mset (?S @ ?N) = mset ps" using ranked_mset [of _ "\<lambda>p. p_distance_km p \<noteq> None" ps] by simp
  then have "distinct (map p_name (?S @ ?N))" using assms by (rule distinct_map_mset)
  then have "distinct (take k (map p_name (?S @ ?N)))" by (rule distinct_take)
  then show ?thesis by (simp only: k take_map)
qed

lemma rank_places_length: "0 \<le> m \<Longrightarrow> int (length (rank_places ps m)) \<le> m"
  by (simp add: rank_places_take)

text \<open>
  Claim C3. Whatever the map provider answers, no two entries of the places agent's
  result have the same name, and for a positive limit the result has at most that many
  entries.
\<close>

theorem find_places_unique_bounded:
  "distinct (map p_name (fst (find_places e lat lon radius_m max_places)))
   \<and> (0 < max_places \<longrightarrow>
        int (length (fst (find_places e lat lon radius_m max_places))) \<le> max_places)"
proof (cases "overpass e radius_m lat lon")
  case None
  then show ?thesis by (simp add: find_places_def)
next
  case (Some elems)
  show ?thesis
  proof (cases "scan_elems (machine e) lat lon elems ({}, [])")
    case (Inl x)
    with Some show ?thesis by (simp add: find_places_def)
  next
    case (Inr st)
    with Some scan_elems_distinct [OF Inr] show ?thesis
      by (simp add: find_places_def rank_places_distinct rank_places_length)
  qed
qed

theorem find_places_unique_bounded_witness:
  "(0::int) < 5
   \<and> distinct (map p_name (fst (find_places (sample_env ''2024-01-01T10:40'') 12.97 77.59 20000 5)))
   \<and> int (length (fst (find_places (sample_env ''2024-01-01T10:40'') 12.97 77.59 20000 5))) \<le> 5"
  using find_places_unique_bounded [of "sample_env ''2024-01-01T10:40''" "12.97" "77.59" 20000 5]
  by simp











text \<open>
  A response on which doubles raise: for the query \<open>(65.29740663222324,
  -93.01246813260502)\<close> and a node at \<open>(-65.29740663222323, 86.98753186739498)\<close>, nearly
  antipodal, the sum under the root rounds to \<open>1.0000000000000004\<close>, its root to
  \<open>1.0000000000000002\<close>, and \<^verbatim>\<open>math.asin\<close> raises. On every machine that does so the
  agent answers the empty list, although the response holds a named node.
\<close>

lemma find_places_antipodal:
  assumes "overpass e radius_m 65.29740663222324 (- 93.01246813260502) =
             Some [\<lparr>el_type = Some ''node'', el_lat = Some (- 65.29740663222323),
                    el_lon = Some 86.98753186739498, el_center = None,
                    el_tags = [(''name'', ''A'')]\<rparr>]"
    and "haversine_m (machine e) 65.29740663222324 (- 93.01246813260502)
           (- 65.29740663222323) 86.98753186739498 = Inl ValueError"
  shows "fst (find_places e 65.29740663222324 (- 93.01246813260502) radius_m max_places) = []"
  using assms by (simp add: find_places_def visit_def Let_def make_place_def truthy_def)

lemma visit_distance:
  assumes "visit ar lat lon el st = Inr st'"
    and "\<forall>p\<in>set (snd st).
           if truthy (p_lat p) \<and> truthy (p_lon p)
           then map_sum id Some (haversine_m ar lat lon (the (p_lat p)) (the (p_lon p))) =
                  Inr (p_distance_km p)
           else p_distance_km p = None"
  shows "\<forall>p\<in>set (snd st').
           if truthy (p_lat p) \<and> truthy (p_lon p)
           then map_sum id Some (haversine_m ar lat lon (the (p_lat p)) (the (p_lon p))) =
                  Inr (p_distance_km p)
           else p_distance_km p = None"
  using visit_cases [OF assms(1)]
proof (elim disjE exE conjE)
  fix name p plat plon
  assume a: "make_place ar lat lon name (el_tags el) plat plon = Inr p" "snd st' = snd st @ [p]"
  from make_place_Inr(2-4) [OF a(1)] a(2) assms(2) show ?thesis by auto
qed (use assms(2) in simp_all)

lemma scan_elems_distance:
  assumes "scan_elems ar lat lon elems st = Inr st'"
    and "\<forall>p\<in>set (snd st).
           if truthy (p_lat p) \<and> truthy (p_lon p)
           then map_sum id Some (haversine_m ar lat lon (the (p_lat p)) (the (p_lon p))) =
                  Inr (p_distance_km p)
           else p_distance_km p = None"
  shows "\<forall>p\<in>set (snd st').
           if truthy (p_lat p) \<and> truthy (p_lon p)
           then map_sum id Some (haversine_m ar lat lon (the (p_lat p)) (the (p_lon p))) =
                  Inr (p_distance_km p)
           else p_distance_km p = None"
  using assms
proof (induction elems arbitrary: st)
  case Nil
  then show ?case by simp
next
  case (Cons el els)
  from Cons.prems(1) obtain st1 where v: "visit ar lat lon el st = Inr st1"
    and s: "scan_elems ar lat lon els st1 = Inr st'"
    by (auto split: sum.splits)
  from Cons.IH [OF s visit_distance [OF v Cons.prems(2)]] show ?case .
qed

lemma rank_places_subset: "set (rank_places ps m) \<subseteq> set ps"
proof -
  obtain k where k: "rank_places ps m =
      take k (sort_key (\<lambda>x. the (p_distance_km x)) (filter (\<lambda>p. p_distance_km p \<noteq> None) ps)
              @ filter (\<lambda>p. p_distance_km p = None) ps)"
    using rank_places_prefix by blast
  have "set (rank_places ps m) \<subseteq>
        set (sort_key (\<lambda>x. the (p_distance_km x)) (filter (\<lambda>p. p_distance_km p \<noteq> None) ps)
              @ filter (\<lambda>p. p_distance_km p = None) ps)"
    unfolding k by (rule set_take_subset)
  then show ?thesis by auto
qed

lemma find_places_distance:
  assumes "p \<in> set (fst (find_places e lat lon radius_m max_places))"
  shows "if truthy (p_lat p) \<and> truthy (p_lon p)
         then map_sum id Some (haversine_m (machine e) lat lon (the (p_lat p)) (the (p_lon p))) =
                Inr (p_distance_km p)
         else p_distance_km p = None"
proof (cases "overpass e radius_m lat lon")
  case None
  with assms show ?thesis by (simp add: find_places_def)
next
  case (Some elems)
  show ?thesis
  proof (cases "scan_elems (machine e) lat lon elems ({}, [])")
    case (Inl x)
    with Some assms show ?thesis by (simp add: find_places_def)
  next
    case (Inr st)
    with Some assms have "p \<in> set (rank_places (snd st) max_places)"
      by (simp add: find_places_def)
    with rank_places_subset have "p \<in> set (snd st)" by blast
    with scan_elems_distance [OF Inr] show ?thesis by simp
  qed
qed

text \<open>
  Claim C9 fails on the code. A node on the equator (latitude \<open>0\<close>, longitude \<open>10\<close>) has
  its position present, and the agent returns it with that position and no distance:
  the guard \<^verbatim>\<open>if plat and plon\<close> tests the truth value of the numbers, and \<open>0.0\<close> is
  false in Python. Lemma \<open>find_places_distance\<close> above is what the code does in general.
\<close>

theorem find_places_zero_coordinate:
  "fst (find_places
         ((sample_env ''2024-01-01T10:40'')
            \<lparr>overpass := (\<lambda>r lat lon. Some [\<lparr>el_type = Some ''node'', el_lat = Some 0,
                 el_lon = Some 10, el_center = None, el_tags = [(''name'', ''Equator'')]\<rparr>])\<rparr>)
         1 10 20000 5) =
     [\<lparr>p_name = ''Equator'', p_tags = [(''name'', ''Equator'')], p_type = ''other'',
       p_lat = Some 0, p_lon = Some 10, p_distance_km = None\<rparr>]"
  by (simp add: find_places_def visit_def Let_def make_place_def truthy_def rank_places_def
      slice_to_def)

subsection \<open>The weather agent\<close>

lemma index_of_Some:
  "index_of x xs = Some i \<Longrightarrow> i < length xs \<and> xs ! i = x \<and> (\<forall>j<i. xs ! j \<noteq> x)"
proof (induction xs arbitrary: i)
  case Nil
  then show ?case by simp
next
  case (Cons y ys)
  show ?case
  proof (cases "y = x")
    case True
    with Cons.prems show ?thesis by simp
  next
    case False
    with Cons.prems obtain k where k: "index_of x ys = Some k" "i = Suc k" by auto
    from Cons.IH [OF k(1)] False k(2) show ?thesis
      by (auto simp: nth_Cons split: nat.splits)
  qed
qed

lemma index_of_mem: "x \<in> set xs \<Longrightarrow> \<exists>i. index_of x xs = Some i"
  by (induction xs) auto

lemma index_of_JStr: "index_of (JStr s) (map JStr ts) = index_of s ts"
  by (induction ts) simp_all

lemma to_ts_all_ok:
  "\<forall>t\<in>set ts. fromisoformat e t \<noteq> None \<Longrightarrow>
   to_ts_all e ts = Inr (map (\<lambda>t. the (fromisoformat e t)) ts)"
  by (induction ts) (auto simp: to_ts_def)

lemma to_ts_all_fail:
  "\<exists>t\<in>set ts. fromisoformat e t = None \<Longrightarrow> \<exists>x. to_ts_all e ts = Inl x"
proof (induction ts)
  case Nil
  then show ?case by simp
next
  case (Cons a ts)
  show ?case
  proof (cases "fromisoformat e a")
    case None
    then show ?thesis by (simp add: to_ts_def)
  next
    case (Some v)
    with Cons.prems have "\<exists>t\<in>set ts. fromisoformat e t = None" by auto
    then obtain x where "to_ts_all e ts = Inl x" using Cons.IH by blast
    with Some show ?thesis by (simp add: to_ts_def)
  qed
qed

lemma min_list_least:
  "xs \<noteq> [] \<Longrightarrow> min_list xs \<in> set xs \<and> (\<forall>x\<in>set xs. min_list xs \<le> x)"
  for xs :: "real list"
  by (simp add: min_list_Min)

lemma py_round_of_int: "py_round (of_int n) = n"
  by (simp add: py_round_def)

lemma py_round_lt: "x - of_int \<lfloor>x\<rfloor> < 1 / 2 \<Longrightarrow> py_round x = \<lfloor>x\<rfloor>"
  by (simp add: py_round_def Let_def)

lemma py_round_gt: "1 / 2 < x - of_int \<lfloor>x\<rfloor> \<Longrightarrow> py_round x = \<lfloor>x\<rfloor> + 1"
  by (simp add: py_round_def Let_def)

lemma py_round_half:
  "x - of_int \<lfloor>x\<rfloor> = 1 / 2 \<Longrightarrow> py_round x = (if even \<lfloor>x\<rfloor> then \<lfloor>x\<rfloor> else \<lfloor>x\<rfloor> + 1)"
  by (simp add: py_round_def Let_def)

lemma py_round_minus: "py_round (- x) = - py_round x"
proof (cases "x \<in> \<int>")
  case True
  then obtain n where "x = of_int n" by (auto elim: Ints_cases)
  then have "py_round x = n" "py_round (- x) = - n"
    using py_round_of_int [of n] py_round_of_int [of "- n"] by simp_all
  then show ?thesis by simp
next
  case False
  define f where "f = \<lfloor>x\<rfloor>"
  define d where "d = x - of_int f"
  have ne: "x \<noteq> of_int \<lfloor>x\<rfloor>" using False by (metis Ints_of_int)
  then have fl: "\<lfloor>- x\<rfloor> = - f - 1"
    by (simp add: f_def floor_minus ceiling_altdef)
  have "of_int \<lfloor>x\<rfloor> \<le> x" "x < of_int \<lfloor>x\<rfloor> + 1" by linarith+
  with ne have d: "0 < d" "d < 1" unfolding d_def f_def by linarith+
  have nd: "- x - of_int \<lfloor>- x\<rfloor> = 1 - d" unfolding fl by (simp add: d_def)
  have xd: "x - of_int \<lfloor>x\<rfloor> = d" by (simp add: d_def f_def)
  consider "d < 1 / 2" | "1 / 2 < d" | "d = 1 / 2" by linarith
  then show ?thesis
  proof cases
    case 1
    then have "py_round x = f" using py_round_lt [of x] xd by (simp add: f_def)
    moreover from 1 have "1 / 2 < - x - of_int \<lfloor>- x\<rfloor>" unfolding nd by linarith
    then have "py_round (- x) = - f" using py_round_gt [of "- x"] fl by simp
    ultimately show ?thesis by simp
  next
    case 2
    then have "py_round x = f + 1" using py_round_gt [of x] xd by (simp add: f_def)
    moreover from 2 have "- x - of_int \<lfloor>- x\<rfloor> < 1 / 2" unfolding nd by linarith
    then have "py_round (- x) = - f - 1" using py_round_lt [of "- x"] fl by simp
    ultimately show ?thesis by simp
  next
    case 3
    then have "py_round x = (if even f then f else f + 1)"
      using py_round_half [of x] xd by (simp add: f_def)
    moreover from 3 have "- x - of_int \<lfloor>- x\<rfloor> = 1 / 2" unfolding nd by linarith
    then have "py_round (- x) = (if even (- f - 1) then - f - 1 else - f - 1 + 1)"
      using py_round_half [of "- x"] fl by simp
    ultimately show ?thesis by simp
  qed
qed

lemma double_round_unfold:
  assumes "x \<noteq> 0" and "\<lfloor>log 2 \<bar>x\<bar>\<rfloor> = e" and "2 powr (of_int (e - 52)) = q"
  shows "double_round x = of_int (py_round (x / q)) * q"
  using assms by (simp add: double_round_def Let_def)

lemma double_round_minus: "double_round (- x) = - double_round x"
  by (simp add: double_round_def Let_def py_round_minus)

lemma double_round_binade:
  assumes "2 ^ n \<le> x" and "x < 2 ^ Suc n" and "n \<le> 52"
  shows "double_round x = of_int (py_round (x * 2 ^ (52 - n))) / 2 ^ (52 - n)"
proof -
  have x: "0 < x" using assms(1) by (rule less_le_trans [rotated]) simp
  have "2 powr (of_int (int n)) \<le> x \<and> x < 2 powr (of_int (int n + 1))"
    using assms(1,2) by (simp add: powr_realpow powr_add)
  then have "\<lfloor>log 2 x\<rfloor> = int n"
    using floor_log_eq_powr_iff [of x 2 "int n"] x by simp
  then have e: "\<lfloor>log 2 \<bar>x\<bar>\<rfloor> = int n" using x by simp
  have "(2::real) powr (- real (52 - n)) = 1 / 2 ^ (52 - n)"
    by (simp add: powr_minus powr_realpow field_simps)
  moreover have "real_of_int (int n - 52) = - real (52 - n)" using assms(3) by simp
  ultimately have q: "(2::real) powr (of_int (int n - 52)) = 1 / 2 ^ (52 - n)"
    by (simp only:)
  from x have "x \<noteq> 0" by simp
  from double_round_unfold [OF this e q] show ?thesis by simp
qed

lemma double_round_int:
  assumes "\<bar>k\<bar> < 2 ^ 53"
  shows "double_round (of_int k) = of_int k"
proof (cases "k = 0")
  case True
  then show ?thesis by (simp add: double_round_def)
next
  case False
  define e where "e = \<lfloor>log 2 \<bar>real_of_int k\<bar>\<rfloor>"
  have k1: "1 \<le> \<bar>real_of_int k\<bar>" using False by (simp flip: of_int_abs)
  have "\<bar>real_of_int k\<bar> < 2 ^ 53" using assms by (simp flip: of_int_abs)
  then have "log 2 \<bar>real_of_int k\<bar> < 53"
    using k1 by (simp add: log_less_iff powr_realpow)
  then have e52: "e \<le> 52" unfolding e_def by linarith
  have "0 \<le> log 2 \<bar>real_of_int k\<bar>" using k1 by simp
  then have e0: "0 \<le> e" unfolding e_def by simp
  define m where "m = nat (52 - e)"
  have "(2::real) powr (- real m) = 1 / 2 ^ m"
    by (simp add: powr_minus powr_realpow field_simps)
  moreover have "real_of_int (e - 52) = - real m" using e52 by (simp add: m_def)
  ultimately have q: "(2::real) powr (of_int (e - 52)) = 1 / 2 ^ m"
    by (simp only:)
  have "real_of_int k / (1 / 2 ^ m) = of_int (k * 2 ^ m)" by simp
  then have r: "py_round (real_of_int k / (1 / 2 ^ m)) = k * 2 ^ m"
    by (simp only: py_round_of_int)
  from False have "real_of_int k \<noteq> 0" by simp
  from double_round_unfold [OF this e_def [symmetric] q] show ?thesis
    unfolding r by simp
qed

lemma total_seconds_whole:
  "\<bar>k\<bar> < 2 ^ 53 \<Longrightarrow> total_seconds (k * 1000000) = of_int k"
  using double_round_int [of k] by (simp add: total_seconds_def)

lemma far_seconds:
  "\<bar>total_seconds (- 315506361600000002)\<bar> = 315506361600"
  "\<bar>total_seconds (- 315506361600000001)\<bar> = 315506361600"
proof -
  have a: "double_round (315506361600000002 / 1000000) = 315506361600"
    by (subst double_round_binade [of 38]) (simp_all add: py_round_def)
  have b: "double_round (315506361600000001 / 1000000) = 315506361600"
    by (subst double_round_binade [of 38]) (simp_all add: py_round_def)
  show "\<bar>total_seconds (- 315506361600000002)\<bar> = 315506361600"
    using a double_round_minus [of "315506361600000002 / 1000000"]
    by (simp add: total_seconds_def)
  show "\<bar>total_seconds (- 315506361600000001)\<bar> = 315506361600"
    using b double_round_minus [of "315506361600000001 / 1000000"]
    by (simp add: total_seconds_def)
qed

lemma prob_at_Some:
  "i < length probs \<Longrightarrow> prob_at (map Some probs) i = Inr (py_round (probs ! i))"
  by (simp add: prob_at_def)

lemma precip_try_exact:
  assumes "hourly data = Some h" and "h_time h \<noteq> []"
    and "h_precipitation_probability h = map Some probs" and "length probs = length (h_time h)"
    and "dict_get cw ''time'' = JStr now" and "now \<in> set (h_time h)"
  shows "\<exists>i<length (h_time h). h_time h ! i = now \<and> (\<forall>j<i. h_time h ! j \<noteq> now)
           \<and> precip_try e data cw = Inr (Some (py_round (probs ! i)))"
proof -
  obtain i where i: "index_of now (h_time h) = Some i" using assms(6) index_of_mem by fastforce
  note p = index_of_Some [OF i]
  have ne: "probs \<noteq> []" using assms(2,4) by auto
  have "precip_try e data cw = map_sum id Some (prob_at (map Some probs) i)"
    using assms ne i
    by (simp add: precip_try_def Let_def in_times_def list_index_def index_of_JStr)
  also have "\<dots> = Inr (Some (py_round (probs ! i)))"
    using p assms(4) by (simp add: prob_at_Some)
  finally show ?thesis using p by blast
qed

lemma precip_try_nearest:
  assumes "hourly data = Some h" and "h_time h \<noteq> []"
    and "h_precipitation_probability h = map Some probs" and "length probs = length (h_time h)"
    and "dict_get cw ''time'' = JStr now" and "now \<notin> set (h_time h)"
    and "fromisoformat e now = Some c" and "\<forall>t\<in>set (h_time h). fromisoformat e t \<noteq> None"
  shows "\<exists>i<length (h_time h).
           (\<forall>j<length (h_time h). \<bar>total_seconds (c - the (fromisoformat e (h_time h ! i)))\<bar>
                                  \<le> \<bar>total_seconds (c - the (fromisoformat e (h_time h ! j)))\<bar>)
         \<and> (\<forall>j<i. \<bar>total_seconds (c - the (fromisoformat e (h_time h ! i)))\<bar>
                   < \<bar>total_seconds (c - the (fromisoformat e (h_time h ! j)))\<bar>)
         \<and> precip_try e data cw = Inr (Some (py_round (probs ! i)))"
proof -
  let ?ts = "h_time h"
  let ?D = "\<lambda>j. \<bar>total_seconds (c - the (fromisoformat e (?ts ! j)))\<bar>"
  let ?diffs = "map (\<lambda>t. \<bar>total_seconds (c - t)\<bar>) (map (\<lambda>t. the (fromisoformat e t)) ?ts)"
  have dne: "?diffs \<noteq> []" using assms(2) by simp
  have ne: "probs \<noteq> []" using assms(2,4) by auto
  from min_list_least [OF dne] have m: "min_list ?diffs \<in> set ?diffs"
    and le: "\<forall>x\<in>set ?diffs. min_list ?diffs \<le> x" by blast+
  obtain i where i: "index_of (min_list ?diffs) ?diffs = Some i"
    using index_of_mem [OF m] by blast
  note p = index_of_Some [OF i]
  have il: "i < length ?ts" using p by simp
  have d: "?diffs ! j = ?D j" if "j < length ?ts" for j
    using that by simp
  have mi: "min_list ?diffs = ?D i"
    using p d [OF il] by simp
  have "py_min ?diffs = Inr (min_list ?diffs)"
    using dne by (simp add: py_min_def split: list.splits)
  then have "precip_try e data cw = map_sum id Some (prob_at (map Some probs) i)"
    using assms ne i
    by (simp add: precip_try_def Let_def in_times_def to_ts_all_ok to_ts_def list_index_def)
  also have "\<dots> = Inr (Some (py_round (probs ! i)))"
    using il assms(4) by (simp add: prob_at_Some)
  finally have r: "precip_try e data cw = Inr (Some (py_round (probs ! i)))" .
  have a: "\<forall>j<length ?ts. ?D i \<le> ?D j"
  proof (intro allI impI)
    fix j assume j: "j < length ?ts"
    then have "?diffs ! j \<in> set ?diffs" by (simp del: map_map)
    with le have "min_list ?diffs \<le> ?diffs ! j" by blast
    then show "?D i \<le> ?D j" unfolding mi d [OF j] .
  qed
  have b: "\<forall>j<i. ?D i < ?D j"
  proof (intro allI impI)
    fix j assume j: "j < i"
    then have jl: "j < length ?ts" using il by simp
    from p j have "?diffs ! j \<noteq> min_list ?diffs" by blast
    moreover have "min_list ?diffs \<le> ?diffs ! j" using a jl mi d [OF jl] by simp
    ultimately have "min_list ?diffs < ?diffs ! j" by simp
    then show "?D i < ?D j" unfolding mi d [OF jl] .
  qed
  from il a b r show ?thesis by blast
qed

lemma scaled_le: "real_of_int a / 1000000 \<le> real_of_int b / 1000000 \<longleftrightarrow> a \<le> b"
  by simp

lemma scaled_less: "real_of_int a / 1000000 < real_of_int b / 1000000 \<longleftrightarrow> a < b"
  by simp

lemma whole_seconds_diff:
  assumes "d = k * 1000000" and "\<bar>k\<bar> < 2 ^ 53"
  shows "\<bar>total_seconds d\<bar> = of_int \<bar>d\<bar> / 1000000"
  using total_seconds_whole [OF assms(2)] assms(1) by (simp add: abs_mult)

lemma get_weather_Some:
  assumes "open_meteo e lat lon = Some data" and "current_weather data = Some cw" and "cw \<noteq> []"
  shows "fst (get_weather e lat lon) =
         Some \<lparr>w_temperature = dict_get cw ''temperature'', w_windspeed = dict_get cw ''windspeed'',
               w_time = dict_get cw ''time'',
               w_precip_prob = (case precip_try e data cw of Inl x \<Rightarrow> None | Inr p \<Rightarrow> p),
               w_raw = data\<rparr>"
  using assms by (simp add: get_weather_def)

text \<open>
  Claim C5, as amended. Let the weather response have a non-empty current-conditions
  block with time \<open>now\<close> and an hourly series of timestamps with as many probabilities,
  all numbers. If \<open>now\<close> occurs among the hourly timestamps, the snapshot's probability is
  the rounded probability at the first index where it occurs. Otherwise, when \<open>now\<close> and
  every hourly timestamp parse, it is the rounded probability at the first index at
  which the absolute difference in seconds, as the double that \<^verbatim>\<open>total_seconds()\<close>
  returns, is least; when every difference is a whole number of seconds (below \<open>2\<^sup>5\<^sup>3\<close>,
  as all differences of two \<^verbatim>\<open>datetime\<close> values are), that is the first index of least
  absolute difference. Rounding leaves an integer percentage as it is. The two examples
  of the claim (\<open>11:00\<close> exactly, \<open>10:40\<close> nearest, both giving \<open>80\<close>) are the witness
  below.
\<close>

theorem precip_alignment:
  assumes "open_meteo e lat lon = Some data"
    and "current_weather data = Some cw" and "cw \<noteq> []"
    and "hourly data = Some h" and "h_time h \<noteq> []"
    and "h_precipitation_probability h = map Some probs"
    and "length probs = length (h_time h)"
    and "dict_get cw ''time'' = JStr now"
  shows "\<exists>w. fst (get_weather e lat lon) = Some w
    \<and> (now \<in> set (h_time h) \<longrightarrow>
         (\<exists>i<length (h_time h). h_time h ! i = now \<and> (\<forall>j<i. h_time h ! j \<noteq> now)
             \<and> w_precip_prob w = Some (py_round (probs ! i))))
    \<and> (\<forall>c. now \<notin> set (h_time h) \<and> fromisoformat e now = Some c
             \<and> (\<forall>t\<in>set (h_time h). fromisoformat e t \<noteq> None) \<longrightarrow>
         (\<exists>i<length (h_time h).
             (\<forall>j<length (h_time h).
                 \<bar>total_seconds (c - the (fromisoformat e (h_time h ! i)))\<bar>
                 \<le> \<bar>total_seconds (c - the (fromisoformat e (h_time h ! j)))\<bar>)
           \<and> (\<forall>j<i. \<bar>total_seconds (c - the (fromisoformat e (h_time h ! i)))\<bar>
                     < \<bar>total_seconds (c - the (fromisoformat e (h_time h ! j)))\<bar>)
           \<and> w_precip_prob w = Some (py_round (probs ! i))
           \<and> ((\<forall>j<length (h_time h). \<exists>k. c - the (fromisoformat e (h_time h ! j)) = k * 1000000
                                            \<and> \<bar>k\<bar> < 2 ^ 53) \<longrightarrow>
                (\<forall>j<length (h_time h). \<bar>c - the (fromisoformat e (h_time h ! i))\<bar>
                                       \<le> \<bar>c - the (fromisoformat e (h_time h ! j))\<bar>)
                \<and> (\<forall>j<i. \<bar>c - the (fromisoformat e (h_time h ! i))\<bar>
                          < \<bar>c - the (fromisoformat e (h_time h ! j))\<bar>))))
    \<and> (\<forall>n. py_round (of_int n) = n)"
proof -
  let ?w = "\<lparr>w_temperature = dict_get cw ''temperature'', w_windspeed = dict_get cw ''windspeed'',
             w_time = dict_get cw ''time'',
             w_precip_prob = (case precip_try e data cw of Inl x \<Rightarrow> None | Inr p \<Rightarrow> p),
             w_raw = data\<rparr>"
  let ?T = "\<lambda>j. the (fromisoformat e (h_time h ! j))"
  have w: "fst (get_weather e lat lon) = Some ?w"
    using assms(1-3) by (rule get_weather_Some)
  have x: "now \<in> set (h_time h) \<longrightarrow>
         (\<exists>i<length (h_time h). h_time h ! i = now \<and> (\<forall>j<i. h_time h ! j \<noteq> now)
             \<and> w_precip_prob ?w = Some (py_round (probs ! i)))"
  proof
    assume "now \<in> set (h_time h)"
    from precip_try_exact [OF assms(4-8) this, of e]
    show "\<exists>i<length (h_time h). h_time h ! i = now \<and> (\<forall>j<i. h_time h ! j \<noteq> now)
             \<and> w_precip_prob ?w = Some (py_round (probs ! i))"
      by auto
  qed
  have n: "\<forall>c. now \<notin> set (h_time h) \<and> fromisoformat e now = Some c
             \<and> (\<forall>t\<in>set (h_time h). fromisoformat e t \<noteq> None) \<longrightarrow>
         (\<exists>i<length (h_time h).
             (\<forall>j<length (h_time h). \<bar>total_seconds (c - ?T i)\<bar> \<le> \<bar>total_seconds (c - ?T j)\<bar>)
           \<and> (\<forall>j<i. \<bar>total_seconds (c - ?T i)\<bar> < \<bar>total_seconds (c - ?T j)\<bar>)
           \<and> w_precip_prob ?w = Some (py_round (probs ! i))
           \<and> ((\<forall>j<length (h_time h). \<exists>k. c - ?T j = k * 1000000 \<and> \<bar>k\<bar> < 2 ^ 53) \<longrightarrow>
                (\<forall>j<length (h_time h). \<bar>c - ?T i\<bar> \<le> \<bar>c - ?T j\<bar>)
                \<and> (\<forall>j<i. \<bar>c - ?T i\<bar> < \<bar>c - ?T j\<bar>)))"
  proof (intro allI impI, elim conjE)
    fix c
    assume a: "now \<notin> set (h_time h)" "fromisoformat e now = Some c"
      "\<forall>t\<in>set (h_time h). fromisoformat e t \<noteq> None"
    from precip_try_nearest [OF assms(4-8) a]
    obtain i where i: "i < length (h_time h)"
      "\<forall>j<length (h_time h). \<bar>total_seconds (c - ?T i)\<bar> \<le> \<bar>total_seconds (c - ?T j)\<bar>"
      "\<forall>j<i. \<bar>total_seconds (c - ?T i)\<bar> < \<bar>total_seconds (c - ?T j)\<bar>"
      "precip_try e data cw = Inr (Some (py_round (probs ! i)))"
      by blast
    from i(4) have p: "w_precip_prob ?w = Some (py_round (probs ! i))" by simp
    have s: "(\<forall>j<length (h_time h). \<exists>k. c - ?T j = k * 1000000 \<and> \<bar>k\<bar> < 2 ^ 53) \<longrightarrow>
                (\<forall>j<length (h_time h). \<bar>c - ?T i\<bar> \<le> \<bar>c - ?T j\<bar>)
                \<and> (\<forall>j<i. \<bar>c - ?T i\<bar> < \<bar>c - ?T j\<bar>)"
    proof
      assume ws: "\<forall>j<length (h_time h). \<exists>k. c - ?T j = k * 1000000 \<and> \<bar>k\<bar> < 2 ^ 53"
      have d: "\<bar>total_seconds (c - ?T j)\<bar> = of_int \<bar>c - ?T j\<bar> / 1000000"
        if "j < length (h_time h)" for j
        using ws that whole_seconds_diff by blast
      have "\<bar>c - ?T i\<bar> \<le> \<bar>c - ?T j\<bar>" if "j < length (h_time h)" for j
      proof -
        from i(2) that
        have "\<bar>total_seconds (c - ?T i)\<bar> \<le> \<bar>total_seconds (c - ?T j)\<bar>" by blast
        then have "real_of_int \<bar>c - ?T i\<bar> / 1000000 \<le> real_of_int \<bar>c - ?T j\<bar> / 1000000"
          by (simp only: d [OF that] d [OF i(1)])
        then show ?thesis by (simp only: scaled_le)
      qed
      moreover have "\<bar>c - ?T i\<bar> < \<bar>c - ?T j\<bar>" if "j < i" for j
      proof -
        from that i(1) have jl: "j < length (h_time h)" by simp
        from i(3) that
        have "\<bar>total_seconds (c - ?T i)\<bar> < \<bar>total_seconds (c - ?T j)\<bar>" by blast
        then have "real_of_int \<bar>c - ?T i\<bar> / 1000000 < real_of_int \<bar>c - ?T j\<bar> / 1000000"
          by (simp only: d [OF jl] d [OF i(1)])
        then show ?thesis by (simp only: scaled_less)
      qed
      ultimately show "(\<forall>j<length (h_time h). \<bar>c - ?T i\<bar> \<le> \<bar>c - ?T j\<bar>)
                \<and> (\<forall>j<i. \<bar>c - ?T i\<bar> < \<bar>c - ?T j\<bar>)"
        by blast
    qed
    from i(1-3) p s show "\<exists>i<length (h_time h).
             (\<forall>j<length (h_time h). \<bar>total_seconds (c - ?T i)\<bar> \<le> \<bar>total_seconds (c - ?T j)\<bar>)
           \<and> (\<forall>j<i. \<bar>total_seconds (c - ?T i)\<bar> < \<bar>total_seconds (c - ?T j)\<bar>)
           \<and> w_precip_prob ?w = Some (py_round (probs ! i))
           \<and> ((\<forall>j<length (h_time h). \<exists>k. c - ?T j = k * 1000000 \<and> \<bar>k\<bar> < 2 ^ 53) \<longrightarrow>
                (\<forall>j<length (h_time h). \<bar>c - ?T i\<bar> \<le> \<bar>c - ?T j\<bar>)
                \<and> (\<forall>j<i. \<bar>c - ?T i\<bar> < \<bar>c - ?T j\<bar>))"
      by blast
  qed
  from w x n py_round_of_int show ?thesis by blast
qed

lemma iso_sample:
  "iso_datetime ''2024-01-01T10:00'' = Some 63839786400000000"
  "iso_datetime ''2024-01-01T10:40'' = Some 63839788800000000"
  "iso_datetime ''2024-01-01T11:00'' = Some 63839790000000000"
  "iso_datetime ''0001-01-01T00:00'' = Some 86400000000"
  "iso_datetime ''9999-01-01T00:00:00.000002'' = Some 315506448000000002"
  "iso_datetime ''9999-01-01T00:00:00.000001'' = Some 315506448000000001"
  by (simp_all add: iso_datetime_def iso_micro_def iso_minute_def days_before_year_def
      days_before_month_def days_in_month_def is_leap_def)

lemma sample_weather_facts:
  "open_meteo (sample_env now) lat lon = Some (sample_weather now)"
  "current_weather (sample_weather now) =
     Some [(''temperature'', JNum 25), (''windspeed'', JNum 3), (''time'', JStr now)]"
  "hourly (sample_weather now) =
     Some \<lparr>h_time = [''2024-01-01T10:00'', ''2024-01-01T11:00''],
           h_precipitation_probability = [Some 10, Some 80]\<rparr>"
  "dict_get [(''temperature'', JNum 25), (''windspeed'', JNum 3), (''time'', JStr now)] ''time'' =
     JStr now"
  "fromisoformat (sample_env now) = iso_datetime"
  by (simp_all add: sample_env_def sample_weather_def dict_get_def)

theorem precip_alignment_witness:
  "map_option w_precip_prob (fst (get_weather (sample_env ''2024-01-01T11:00'') 12.97 77.59)) =
     Some (Some 80)
   \<and> map_option w_precip_prob (fst (get_weather (sample_env ''2024-01-01T10:40'') 12.97 77.59)) =
     Some (Some 80)"
proof
  let ?h = "\<lparr>h_time = [''2024-01-01T10:00'', ''2024-01-01T11:00''],
             h_precipitation_probability = [Some 10, Some 80]\<rparr>"
  have hn: "h_time ?h \<noteq> []" by simp
  have hp: "h_precipitation_probability ?h = map Some [10, 80]" by simp
  have hl: "length [10, 80 :: real] = length (h_time ?h)" by simp
  have cn: "[(''temperature'', JNum 25), (''windspeed'', JNum 3), (''time'', JStr now)] \<noteq> []"
    for now by simp
  note t = precip_alignment [OF sample_weather_facts(1-2) cn sample_weather_facts(3) hn hp hl
      sample_weather_facts(4)]
  show "map_option w_precip_prob (fst (get_weather (sample_env ''2024-01-01T11:00'') 12.97 77.59)) =
     Some (Some 80)"
  proof -
    from t [of "''2024-01-01T11:00''" "12.97" "77.59"]
    obtain w where w: "fst (get_weather (sample_env ''2024-01-01T11:00'') 12.97 77.59) = Some w"
      and x: "''2024-01-01T11:00'' \<in> set (h_time ?h) \<longrightarrow>
         (\<exists>i<length (h_time ?h). h_time ?h ! i = ''2024-01-01T11:00''
             \<and> (\<forall>j<i. h_time ?h ! j \<noteq> ''2024-01-01T11:00'')
             \<and> w_precip_prob w = Some (py_round ([10, 80] ! i)))"
      by (elim exE conjE) (rule that, assumption+)
    have "''2024-01-01T11:00'' \<in> set (h_time ?h)" by simp
    with x obtain i where i: "i < length (h_time ?h)" "h_time ?h ! i = ''2024-01-01T11:00''"
      "w_precip_prob w = Some (py_round ([10, 80] ! i))"
      by blast
    from i(1) have "i = 0 \<or> i = 1" by auto
    with i(2) have "i = 1" by auto
    with i(3) have "w_precip_prob w = Some 80" by (simp add: py_round_def)
    with w show ?thesis by simp
  qed
  show "map_option w_precip_prob (fst (get_weather (sample_env ''2024-01-01T10:40'') 12.97 77.59)) =
     Some (Some 80)"
  proof -
    let ?c = "63839788800000000 :: int"
    let ?e = "sample_env ''2024-01-01T10:40''"
    let ?T = "\<lambda>j. the (fromisoformat ?e (h_time ?h ! j))"
    from t [of "''2024-01-01T10:40''" "12.97" "77.59"]
    obtain w where w: "fst (get_weather ?e 12.97 77.59) = Some w"
      and n: "\<forall>c. ''2024-01-01T10:40'' \<notin> set (h_time ?h)
             \<and> fromisoformat ?e ''2024-01-01T10:40'' = Some c
             \<and> (\<forall>t\<in>set (h_time ?h). fromisoformat ?e t \<noteq> None) \<longrightarrow>
         (\<exists>i<length (h_time ?h).
             (\<forall>j<length (h_time ?h). \<bar>total_seconds (c - ?T i)\<bar> \<le> \<bar>total_seconds (c - ?T j)\<bar>)
           \<and> (\<forall>j<i. \<bar>total_seconds (c - ?T i)\<bar> < \<bar>total_seconds (c - ?T j)\<bar>)
           \<and> w_precip_prob w = Some (py_round ([10, 80] ! i))
           \<and> ((\<forall>j<length (h_time ?h). \<exists>k. c - ?T j = k * 1000000 \<and> \<bar>k\<bar> < 2 ^ 53) \<longrightarrow>
                (\<forall>j<length (h_time ?h). \<bar>c - ?T i\<bar> \<le> \<bar>c - ?T j\<bar>)
                \<and> (\<forall>j<i. \<bar>c - ?T i\<bar> < \<bar>c - ?T j\<bar>)))"
      by (elim exE conjE) (rule that, assumption+)
    have T0: "?T 0 = 63839786400000000" and T1: "?T 1 = 63839790000000000"
      by (simp_all add: sample_weather_facts(5) iso_sample)
    have "''2024-01-01T10:40'' \<notin> set (h_time ?h)
             \<and> fromisoformat ?e ''2024-01-01T10:40'' = Some ?c
             \<and> (\<forall>t\<in>set (h_time ?h). fromisoformat ?e t \<noteq> None)"
      by (simp add: sample_weather_facts(5) iso_sample)
    with n [THEN spec, of ?c] have "\<exists>i<length (h_time ?h).
             (\<forall>j<length (h_time ?h). \<bar>total_seconds (?c - ?T i)\<bar> \<le> \<bar>total_seconds (?c - ?T j)\<bar>)
           \<and> (\<forall>j<i. \<bar>total_seconds (?c - ?T i)\<bar> < \<bar>total_seconds (?c - ?T j)\<bar>)
           \<and> w_precip_prob w = Some (py_round ([10, 80] ! i))
           \<and> ((\<forall>j<length (h_time ?h). \<exists>k. ?c - ?T j = k * 1000000 \<and> \<bar>k\<bar> < 2 ^ 53) \<longrightarrow>
                (\<forall>j<length (h_time ?h). \<bar>?c - ?T i\<bar> \<le> \<bar>?c - ?T j\<bar>)
                \<and> (\<forall>j<i. \<bar>?c - ?T i\<bar> < \<bar>?c - ?T j\<bar>))"
      by (rule mp)
    then obtain i where i: "i < length (h_time ?h)"
      "w_precip_prob w = Some (py_round ([10, 80] ! i))"
      "(\<forall>j<length (h_time ?h). \<exists>k. ?c - ?T j = k * 1000000 \<and> \<bar>k\<bar> < 2 ^ 53) \<longrightarrow>
                (\<forall>j<length (h_time ?h). \<bar>?c - ?T i\<bar> \<le> \<bar>?c - ?T j\<bar>)
                \<and> (\<forall>j<i. \<bar>?c - ?T i\<bar> < \<bar>?c - ?T j\<bar>)"
      by (elim exE conjE) (rule that, assumption+)
    have "\<forall>j<length (h_time ?h). \<exists>k. ?c - ?T j = k * 1000000 \<and> \<bar>k\<bar> < 2 ^ 53"
    proof (intro allI impI)
      fix j assume "j < length (h_time ?h)"
      then have "j = 0 \<or> j = 1" by auto
      then show "\<exists>k. ?c - ?T j = k * 1000000 \<and> \<bar>k\<bar> < 2 ^ 53"
      proof
        assume "j = 0"
        then show ?thesis using T0 by (intro exI [of _ 2400]) simp
      next
        assume "j = 1"
        then show ?thesis using T1 by (intro exI [of _ "- 1200"]) simp
      qed
    qed
    with i(3) have le: "\<forall>j<length (h_time ?h). \<bar>?c - ?T i\<bar> \<le> \<bar>?c - ?T j\<bar>" by blast
    from i(1) have "i = 0 \<or> i = 1" by auto
    moreover have "i \<noteq> 0"
    proof
      assume "i = 0"
      have "(1::nat) < length (h_time ?h)" by simp
      with le have "\<bar>?c - ?T i\<bar> \<le> \<bar>?c - ?T 1\<bar>" by blast
      with \<open>i = 0\<close> have "\<bar>?c - ?T 0\<bar> \<le> \<bar>?c - ?T 1\<bar>" by simp
      then show False unfolding T0 T1 by simp
    qed
    ultimately have "i = 1" by simp
    with i(2) have "w_precip_prob w = Some 80" by (simp add: py_round_def)
    with w show ?thesis by simp
  qed
qed

lemma far_precip:
  assumes "fromisoformat e = iso_datetime"
  shows "precip_try e far_weather
           [(''temperature'', JNum 25), (''windspeed'', JNum 3),
            (''time'', JStr ''0001-01-01T00:00'')] = Inr (Some 10)"
proof -
  have t: "to_ts e (JStr ''9999-01-01T00:00:00.000002'') = Inr 315506448000000002"
    "to_ts e (JStr ''9999-01-01T00:00:00.000001'') = Inr 315506448000000001"
    "to_ts e (JStr ''0001-01-01T00:00'') = Inr 86400000000"
    by (simp_all add: to_ts_def assms iso_sample)
  show ?thesis
    by (simp add: precip_try_def far_weather_def Let_def dict_get_def in_times_def t
        far_seconds py_min_def list_index_def prob_at_def py_round_def)
qed

text \<open>
  Claim C5 as stated fails. With the current time in year 1 and two hourly entries in
  year 9999 a microsecond apart, the second entry is the nearer one, but both
  differences are the same double, \<open>315506361600.0\<close> seconds, and the code takes the
  first: the aligned probability is \<open>10\<close>, not \<open>80\<close>.
\<close>

theorem precip_alignment_counterexample:
  "map_option w_precip_prob
     (fst (get_weather ((sample_env ''0001-01-01T00:00'')
                          \<lparr>open_meteo := (\<lambda>lat lon. Some far_weather)\<rparr>) 12.97 77.59)) =
     Some (Some 10)
   \<and> dict_get (the (current_weather far_weather)) ''time'' = JStr ''0001-01-01T00:00''
   \<and> map_option h_time (hourly far_weather) =
       Some [''9999-01-01T00:00:00.000002'', ''9999-01-01T00:00:00.000001'']
   \<and> map_option h_precipitation_probability (hourly far_weather) = Some [Some 10, Some 80]
   \<and> iso_datetime ''0001-01-01T00:00'' = Some 86400000000
   \<and> iso_datetime ''9999-01-01T00:00:00.000002'' = Some 315506448000000002
   \<and> iso_datetime ''9999-01-01T00:00:00.000001'' = Some 315506448000000001
   \<and> \<bar>86400000000 - 315506448000000001 :: int\<bar> < \<bar>86400000000 - 315506448000000002\<bar>"
proof -
  let ?e = "(sample_env ''0001-01-01T00:00'')\<lparr>open_meteo := (\<lambda>lat lon. Some far_weather)\<rparr>"
  let ?cw = "[(''temperature'', JNum 25), (''windspeed'', JNum 3),
              (''time'', JStr ''0001-01-01T00:00'')]"
  have f: "fromisoformat ?e = iso_datetime" by (simp add: sample_env_def)
  note p = far_precip [OF f]
  have "fst (get_weather ?e 12.97 77.59) =
        Some \<lparr>w_temperature = dict_get ?cw ''temperature'', w_windspeed = dict_get ?cw ''windspeed'',
              w_time = dict_get ?cw ''time'',
              w_precip_prob = (case precip_try ?e far_weather ?cw of Inl x \<Rightarrow> None | Inr p \<Rightarrow> p),
              w_raw = far_weather\<rparr>"
    by (rule get_weather_Some) (simp_all add: far_weather_def)
  then have "map_option w_precip_prob (fst (get_weather ?e 12.97 77.59)) = Some (Some 10)"
    by (simp add: p)
  then show ?thesis
    by (simp add: iso_sample far_weather_def dict_get_def)
qed

lemma precip_try_empty:
  "hourly data = None \<or> (\<exists>h. hourly data = Some h
       \<and> (h_time h = [] \<or> h_precipitation_probability h = [])) \<Longrightarrow>
   precip_try e data cw = Inr None"
  by (auto simp: precip_try_def)

lemma precip_try_parse_fails:
  assumes "hourly data = Some h" and "\<not> in_times (dict_get cw ''time'') (h_time h)"
    and "(\<exists>x. to_ts e (dict_get cw ''time'') = Inl x)
         \<or> (\<exists>t\<in>set (h_time h). fromisoformat e t = None)"
  shows "precip_try e data cw = Inr None \<or> (\<exists>x. precip_try e data cw = Inl x)"
proof (cases "h_time h \<noteq> [] \<and> h_precipitation_probability h \<noteq> []")
  case False
  with assms(1) show ?thesis by (auto simp: precip_try_def)
next
  case True
  show ?thesis
  proof (cases "to_ts_all e (h_time h)")
    case (Inl x)
    with True assms(1,2) show ?thesis by (simp add: precip_try_def Let_def)
  next
    case (Inr vs)
    have "\<not> (\<exists>t\<in>set (h_time h). fromisoformat e t = None)"
    proof
      assume "\<exists>t\<in>set (h_time h). fromisoformat e t = None"
      then obtain x where "to_ts_all e (h_time h) = Inl x" using to_ts_all_fail by blast
      with Inr show False by simp
    qed
    with assms(3) obtain x where "to_ts e (dict_get cw ''time'') = Inl x" by blast
    with True assms(1,2) Inr show ?thesis by (simp add: precip_try_def Let_def)
  qed
qed

text \<open>
  Claim C6. The weather agent answers \<open>None\<close> exactly when the request fails or the
  response has no current-conditions block (the key is missing or null, or the block is
  the empty object, which \<^verbatim>\<open>if not curr\<close> treats alike). With a block present, when
  the hourly object, its timestamps or its probabilities are missing or empty, or when
  the current time is not among the hourly timestamps and it or one of them does not
  parse, the agent still answers a snapshot: temperature, wind speed and time as the
  block has them, and no probability.
\<close>

theorem get_weather_unavailable:
  "(fst (get_weather e lat lon) = None) =
     (open_meteo e lat lon = None
      \<or> (\<exists>data. open_meteo e lat lon = Some data
            \<and> (current_weather data = None \<or> current_weather data = Some [])))
   \<and> (\<forall>data cw. open_meteo e lat lon = Some data \<and> current_weather data = Some cw \<and> cw \<noteq> []
         \<and> (hourly data = None
            \<or> (\<exists>h. hourly data = Some h
                  \<and> (h_time h = [] \<or> h_precipitation_probability h = []
                     \<or> (\<not> in_times (dict_get cw ''time'') (h_time h)
                        \<and> ((\<exists>x. to_ts e (dict_get cw ''time'') = Inl x)
                           \<or> (\<exists>t\<in>set (h_time h). fromisoformat e t = None)))))) \<longrightarrow>
       fst (get_weather e lat lon) =
         Some \<lparr>w_temperature = dict_get cw ''temperature'',
               w_windspeed = dict_get cw ''windspeed'', w_time = dict_get cw ''time'',
               w_precip_prob = None, w_raw = data\<rparr>)"
proof (intro conjI allI impI)
  show "(fst (get_weather e lat lon) = None) =
     (open_meteo e lat lon = None
      \<or> (\<exists>data. open_meteo e lat lon = Some data
            \<and> (current_weather data = None \<or> current_weather data = Some [])))"
    by (auto simp: get_weather_def split: option.splits)
next
  fix data cw
  assume a: "open_meteo e lat lon = Some data \<and> current_weather data = Some cw \<and> cw \<noteq> []
         \<and> (hourly data = None
            \<or> (\<exists>h. hourly data = Some h
                  \<and> (h_time h = [] \<or> h_precipitation_probability h = []
                     \<or> (\<not> in_times (dict_get cw ''time'') (h_time h)
                        \<and> ((\<exists>x. to_ts e (dict_get cw ''time'') = Inl x)
                           \<or> (\<exists>t\<in>set (h_time h). fromisoformat e t = None))))))"
  then have "precip_try e data cw = Inr None \<or> (\<exists>x. precip_try e data cw = Inl x)"
    using precip_try_empty [of data e cw] precip_try_parse_fails [of data _ cw e] by blast
  then have "(case precip_try e data cw of Inl x \<Rightarrow> None | Inr p \<Rightarrow> p) = None" by auto
  moreover from a have "fst (get_weather e lat lon) =
         Some \<lparr>w_temperature = dict_get cw ''temperature'', w_windspeed = dict_get cw ''windspeed'',
               w_time = dict_get cw ''time'',
               w_precip_prob = (case precip_try e data cw of Inl x \<Rightarrow> None | Inr p \<Rightarrow> p),
               w_raw = data\<rparr>"
    by (intro get_weather_Some) simp_all
  ultimately show "fst (get_weather e lat lon) =
         Some \<lparr>w_temperature = dict_get cw ''temperature'',
               w_windspeed = dict_get cw ''windspeed'', w_time = dict_get cw ''time'',
               w_precip_prob = None, w_raw = data\<rparr>"
    by simp
qed

theorem get_weather_unavailable_witness:
  "fst (get_weather ((sample_env ''soon'')\<lparr>open_meteo := (\<lambda>lat lon. None)\<rparr>) 12.97 77.59) = None
   \<and> \<not> in_times (JStr ''soon'') [''2024-01-01T10:00'', ''2024-01-01T11:00'']
   \<and> to_ts (sample_env ''soon'') (JStr ''soon'') = Inl ValueError
   \<and> fst (get_weather (sample_env ''soon'') 12.97 77.59) =
       Some \<lparr>w_temperature = JNum 25, w_windspeed = JNum 3, w_time = JStr ''soon'',
             w_precip_prob = None, w_raw = sample_weather ''soon''\<rparr>"
proof -
  let ?cw = "[(''temperature'', JNum 25), (''windspeed'', JNum 3), (''time'', JStr ''soon'')]"
  let ?h = "\<lparr>h_time = [''2024-01-01T10:00'', ''2024-01-01T11:00''],
             h_precipitation_probability = [Some 10, Some 80]\<rparr>"
  have 1: "fst (get_weather ((sample_env ''soon'')\<lparr>open_meteo := (\<lambda>lat lon. None)\<rparr>) 12.97 77.59)
           = None"
    using get_weather_unavailable
      [of "(sample_env ''soon'')\<lparr>open_meteo := (\<lambda>lat lon. None)\<rparr>" "12.97" "77.59",
       THEN conjunct1]
    by simp
  have 2: "\<not> in_times (JStr ''soon'') [''2024-01-01T10:00'', ''2024-01-01T11:00'']"
    by (simp add: in_times_def)
  have 3: "to_ts (sample_env ''soon'') (JStr ''soon'') = Inl ValueError"
    by (simp add: to_ts_def sample_env_def iso_datetime_def iso_micro_def iso_minute_def)
  have d: "dict_get ?cw ''time'' = JStr ''soon''" "dict_get ?cw ''temperature'' = JNum 25"
    "dict_get ?cw ''windspeed'' = JNum 3"
    by (simp_all add: dict_get_def)
  have "open_meteo (sample_env ''soon'') 12.97 77.59 = Some (sample_weather ''soon'')
      \<and> current_weather (sample_weather ''soon'') = Some ?cw \<and> ?cw \<noteq> []
      \<and> (hourly (sample_weather ''soon'') = None
          \<or> (\<exists>h. hourly (sample_weather ''soon'') = Some h
                \<and> (h_time h = [] \<or> h_precipitation_probability h = []
                   \<or> (\<not> in_times (dict_get ?cw ''time'') (h_time h)
                      \<and> ((\<exists>x. to_ts (sample_env ''soon'') (dict_get ?cw ''time'') = Inl x)
                         \<or> (\<exists>t\<in>set (h_time h). fromisoformat (sample_env ''soon'') t = None))))))"
    using 2 3 by (simp add: sample_weather_facts d)
  with get_weather_unavailable [of "sample_env ''soon''" "12.97" "77.59", THEN conjunct2]
  have "fst (get_weather (sample_env ''soon'') 12.97 77.59) =
         Some \<lparr>w_temperature = dict_get ?cw ''temperature'',
               w_windspeed = dict_get ?cw ''windspeed'', w_time = dict_get ?cw ''time'',
               w_precip_prob = None, w_raw = sample_weather ''soon''\<rparr>"
    by blast
  with 1 2 3 show ?thesis by (simp only: d simp_thms)
qed

end
